theory Spec2Isabelle
  imports Complex_Main "HOL-Library.Word"
begin

section \<open>Numeric model\<close>

text \<open>
  The firmware computes on \<open>float32_t\<close>, IEEE 754 binary32. Two representations are
  used.

  \<^item> \<open>ieee32\<close> holds every binary32 value: NaN, the two infinities and the finite
    values (the two zeros are the one value \<open>Finite 0\<close>; they compare equal and no
    operation used here tells them apart). Comparisons with a NaN are false. Addition,
    subtraction and multiplication round the exact result to the nearest binary32
    value, ties to even, with gradual underflow and overflow to an infinity
    (\<open>round32\<close>, \<open>round_to_float32\<close>). The primitives of auxiliary.cpp, \<open>Ts\<close>, the
    references \<open>Vdq_ref\<close>, \<open>Idq_ref\<close> and their bounds, and the command fields \<open>vd_ref\<close>
    and \<open>id_ref\<close>, which the protocol layer writes with any value, have this type.

  \<^item> \<open>float32_t\<close> is the real number a finite binary32 value denotes; the sampled
    measurements and the duty cycles of main.cpp have this type, with comparisons
    exact and \<open>+\<close>, \<open>-\<close>, \<open>/\<close> the exact operations. Where main.cpp calls a primitive
    of auxiliary.cpp the value is passed as \<open>Finite\<close> and the result is read back with
    \<open>real_of_ieee32\<close>.

  The \<open>uint8_t\<close> mode variables are \<open>8 word\<close>, the \<open>uint32_t\<close> counters are \<open>32 word\<close>
  (so \<open>++\<close> wraps), the \<open>uint16_t\<close> dead times are \<open>16 word\<close>.
\<close>

type_synonym float32_t = real
type_synonym uint8_t = "8 word"
type_synonym uint16_t = "16 word"
type_synonym uint32_t = "32 word"

subsection \<open>binary32 values and comparisons\<close>

datatype ieee32 = NaN | MinusInf | Finite real | PlusInf

fun f_lt :: "ieee32 \<Rightarrow> ieee32 \<Rightarrow> bool" where
  "f_lt (Finite a) (Finite b) = (a < b)"
| "f_lt MinusInf (Finite b) = True"
| "f_lt MinusInf PlusInf = True"
| "f_lt (Finite a) PlusInf = True"
| "f_lt _ _ = False"

definition f_gt :: "ieee32 \<Rightarrow> ieee32 \<Rightarrow> bool" where
  "f_gt a b = f_lt b a"

definition f_le :: "ieee32 \<Rightarrow> ieee32 \<Rightarrow> bool" where
  "f_le a b \<longleftrightarrow> a \<noteq> NaN \<and> b \<noteq> NaN \<and> \<not> f_lt b a"

text \<open>The operator \<open>==\<close>: false when either side is a NaN.\<close>

definition f_eq :: "ieee32 \<Rightarrow> ieee32 \<Rightarrow> bool" where
  "f_eq a b \<longleftrightarrow> a \<noteq> NaN \<and> b \<noteq> NaN \<and> a = b"

fun fneg :: "ieee32 \<Rightarrow> ieee32" where
  "fneg NaN = NaN"
| "fneg MinusInf = PlusInf"
| "fneg PlusInf = MinusInf"
| "fneg (Finite a) = Finite (- a)"

subsection \<open>Rounding to binary32\<close>

text \<open>\<open>rne\<close> rounds a real to the nearest integer, ties to the even one. A non-zero
  real \<open>x\<close> with \<open>2^e \<le> |x| < 2^(e+1)\<close> is rounded on the grid of spacing \<open>2^(e-23)\<close>
  (24 significant bits); below \<open>2^-126\<close> the spacing stays \<open>2^-149\<close> (subnormals). A
  rounded magnitude above the largest finite value, \<open>(2^24 - 1) * 2^104\<close>, is an
  infinity.\<close>

definition rne :: "real \<Rightarrow> int" where
  "rne y =
     (let f = \<lfloor>y\<rfloor>
      in if y - of_int f < 1 / 2 then f
         else if y - of_int f > 1 / 2 then f + 1
         else if even f then f else f + 1)"

definition exponent32 :: "real \<Rightarrow> int" where
  "exponent32 x = max (- 126) \<lfloor>log 2 \<bar>x\<bar>\<rfloor>"

definition ulp32 :: "real \<Rightarrow> real" where
  "ulp32 x = 2 powr of_int (exponent32 x - 23)"

definition round32 :: "real \<Rightarrow> real" where
  "round32 x = (if x = 0 then 0 else of_int (rne (x / ulp32 x)) * ulp32 x)"

definition max_float32 :: real where
  "max_float32 = (2 ^ 24 - 1) * 2 ^ 104"

definition round_to_float32 :: "real \<Rightarrow> ieee32" where
  "round_to_float32 x =
     (let r = round32 x
      in if r > max_float32 then PlusInf
         else if r < - max_float32 then MinusInf
         else Finite r)"

subsection \<open>binary32 arithmetic\<close>

fun fadd :: "ieee32 \<Rightarrow> ieee32 \<Rightarrow> ieee32" where
  "fadd NaN b = NaN"
| "fadd a NaN = NaN"
| "fadd PlusInf MinusInf = NaN"
| "fadd MinusInf PlusInf = NaN"
| "fadd PlusInf b = PlusInf"
| "fadd a PlusInf = PlusInf"
| "fadd MinusInf b = MinusInf"
| "fadd a MinusInf = MinusInf"
| "fadd (Finite a) (Finite b) = round_to_float32 (a + b)"

definition fsub :: "ieee32 \<Rightarrow> ieee32 \<Rightarrow> ieee32" where
  "fsub a b = fadd a (fneg b)"

text \<open>An infinity times a finite value: NaN for zero, else the infinity of the sign
  of the product.\<close>

definition inf_times :: "bool \<Rightarrow> real \<Rightarrow> ieee32" where
  "inf_times positive a =
     (if a = 0 then NaN
      else if (0 < a) = positive then PlusInf else MinusInf)"

fun fmul :: "ieee32 \<Rightarrow> ieee32 \<Rightarrow> ieee32" where
  "fmul NaN b = NaN"
| "fmul a NaN = NaN"
| "fmul PlusInf PlusInf = PlusInf"
| "fmul PlusInf MinusInf = MinusInf"
| "fmul MinusInf PlusInf = MinusInf"
| "fmul MinusInf MinusInf = PlusInf"
| "fmul PlusInf (Finite b) = inf_times True b"
| "fmul MinusInf (Finite b) = inf_times False b"
| "fmul (Finite a) PlusInf = inf_times True a"
| "fmul (Finite a) MinusInf = inf_times False a"
| "fmul (Finite a) (Finite b) = round_to_float32 (a * b)"

text \<open>Reading a binary32 value back as a real; meant for finite values.\<close>

definition real_of_ieee32 :: "ieee32 \<Rightarrow> float32_t" where
  "real_of_ieee32 x = (case x of Finite r \<Rightarrow> r | _ \<Rightarrow> 0)"

text \<open>The reals that are finite binary32 values.\<close>

definition is_float32 :: "real \<Rightarrow> bool" where
  "is_float32 v \<longleftrightarrow> round32 v = v \<and> \<bar>v\<bar> \<le> max_float32"

section \<open>auxiliary.h: the mode enumeration\<close>

definition IDLEMODE :: uint8_t where "IDLEMODE = 0"
definition POWERMODE :: uint8_t where "POWERMODE = 1"
definition ERRORMODE :: uint8_t where "ERRORMODE = 3"
definition STARTUPMODE :: uint8_t where "STARTUPMODE = 4"

section \<open>auxiliary.cpp: ramp and saturation primitives\<close>

text \<open>\<open>static const uint32_t control_task_period = 100\<close> and
  \<open>float32_t Ts = control_task_period * 1.0e-6F\<close> (main.cpp): the integer converted to
  binary32, times the binary32 literal, in binary32.\<close>

definition control_task_period :: nat where
  "control_task_period = 100"

definition Ts :: ieee32 where
  "Ts = fmul (Finite (real control_task_period)) (round_to_float32 (1 / 1000000))"

text \<open>\<open>saturate\<close>: the upper test returns first, the lower test is only reached when
  \<open>x > max\<close> is false.\<close>

definition saturate :: "ieee32 \<Rightarrow> ieee32 \<Rightarrow> ieee32 \<Rightarrow> ieee32" where
  "saturate x min_v max_v =
     (if f_gt x max_v then max_v
      else if f_lt x min_v then min_v
      else x)"

text \<open>\<open>sign(x, tol)\<close>; the header gives \<open>tol\<close> the default \<open>1e-3\<close>, converted to
  binary32 at the call.\<close>

definition sign :: "ieee32 \<Rightarrow> ieee32 \<Rightarrow> ieee32" where
  "sign x tol =
     (if f_gt x tol then Finite 1
      else if f_lt x (fneg tol) then Finite (- 1)
      else Finite 0)"

definition sign_default_tol :: ieee32 where
  "sign_default_tol = round_to_float32 (1 / 1000)"

text \<open>\<open>rate_limiter(ref, value, rate)\<close>: \<open>value += Ts * rate * sign(ref - value)\<close>, the
  product taken from the left.\<close>

definition rate_limiter :: "ieee32 \<Rightarrow> ieee32 \<Rightarrow> ieee32 \<Rightarrow> ieee32" where
  "rate_limiter ref val rate =
     fadd val (fmul (fmul Ts rate) (sign (fsub ref val) sign_default_tol))"


section \<open>Shared data (main.cpp, user_data_api.h)\<close>

text \<open>\<open>inverter_mode\<close> and \<open>dqo_t\<close> are declared by the control library
  (\<open>singlePhaseInverter.h\<close>, \<open>trigo.h\<close>); the source uses the two sub-modes and the
  \<open>d\<close> and \<open>q\<close> components only.\<close>

datatype inverter_mode = FORMING | FOLLOWING

record dqo_t =
  dqo_d :: ieee32
  dqo_q :: ieee32

text \<open>\<open>command_t\<close>; its \<open>inverter_on\<close> field is \<open>cmd_inverter_on\<close> here, the
  global of the same name keeps the name.\<close>

record command_t =
  mode_request :: uint8_t
  cmd_inverter_on :: bool
  vd_ref :: ieee32
  id_ref :: ieee32
  scope_dump :: bool
  scope_trigger :: bool

text \<open>The legs of the power shield and the calls the tasks make on the hardware, the
  control-law object, the capture scope and the console, in the order they are made.\<close>

datatype leg_t = LEG1_LOW | LEG2_LOW | LEG1_HIGH | LEG2_HIGH | ALL_LEGS

datatype hw_call =
    PowerStop leg_t
  | PowerStart leg_t
  | SetDutyCycle leg_t float32_t
  | SetDeadTime leg_t uint16_t uint16_t
  | LedTurnOn
  | LedTurnOff
  | LedToggle
  | InverterCalculateDuty float32_t float32_t
  | InverterSetVBus float32_t
  | InverterSetVdqRef dqo_t
  | InverterSetIdqRef dqo_t
  | ScopeStart
  | ScopeAcquire
  | DumpScopeDatas
  | Printk string

text \<open>The global variables of main.cpp that the three tasks read and write. Each task
  body is a function on these globals: one invocation runs from its first statement
  to its last, and the preemption of one task by another is not modelled. The
  telemetry mailboxes (\<open>user_meas\<close>, \<open>user_inv_dbg\<close>, \<open>user_boost_dbg\<close>,
  \<open>user_live\<close>) and the debug copies of the control-law getters are write-only
  copies and are left out.\<close>

record globals =
  mode :: uint8_t
  mode_asked :: uint8_t
  local_mode :: inverter_mode
  inverter_on :: bool
  pwm_enable :: bool
  boost_pwm_enable :: bool
  is_net_synchronized :: bool
  is_downloading :: bool
  trigger :: bool
  Vlow_value :: float32_t
  Vac_value :: float32_t
  Ilow1_value :: float32_t
  Ilow2_value :: float32_t
  Vdc_bus :: float32_t
  Iac_value :: float32_t
  Vdc_bus_filt :: float32_t
  Vgrid_meas :: float32_t
  VN_meas :: float32_t
  Igrid_meas :: float32_t
  omega :: float32_t
  delta_duty_cycle :: float32_t
  duty_cycle_1 :: float32_t
  duty_cycle_2 :: float32_t
  duty_cycle_offset :: float32_t
  boost_duty_cycle :: float32_t
  critical_task_counter :: uint32_t
  sync_counter :: uint32_t
  desync_counter :: uint32_t
  power_counter :: uint32_t
  Vdq_ref :: dqo_t
  Vdq_ref_max :: dqo_t
  Vdq_ref_min :: dqo_t
  Idq_ref :: dqo_t
  Idq_ref_max :: dqo_t
  Idq_ref_min :: dqo_t
  user_cmd :: command_t

text \<open>What one tick of the critical task receives from its collaborators: the six
  sensor channels (\<open>None\<close> is \<open>NO_VALUE\<close>), the output of the bus-voltage low-pass
  filter, the output of the boost PI regulator, the value returned by
  \<open>inverter.calculateDuty\<close> and the value returned by \<open>inverter.getw\<close>.\<close>

record tick_in =
  sens_ILow1 :: "float32_t option"
  sens_VLow :: "float32_t option"
  sens_VAC :: "float32_t option"
  sens_ILow2 :: "float32_t option"
  sens_VDCBus :: "float32_t option"
  sens_IAC :: "float32_t option"
  vHighFilter_out :: float32_t
  boost_pid_out :: float32_t
  calculateDuty_out :: float32_t
  getw_out :: float32_t

subsection \<open>Constants of main.cpp\<close>

definition UDC_STARTUP :: float32_t where "UDC_STARTUP = 0"
definition I1_current_offset :: float32_t where "I1_current_offset = 25 / 100"
definition I2_current_offset :: float32_t where "I2_current_offset = 25 / 100"
definition MAX_CURRENT :: float32_t where "MAX_CURRENT = 8"
definition f0 :: float32_t where "f0 = 50"
definition w0 :: float32_t where "w0 = 2 * pi * f0"
definition sync_power_tolerance :: float32_t where "sync_power_tolerance = (1 / 100) * w0"
definition boost_pos_dt :: uint16_t where "boost_pos_dt = 100"
definition boost_neg_dt :: uint16_t where "boost_neg_dt = 100"
definition decimation :: uint32_t where "decimation = 1"

text \<open>The globals as \<open>setup_routine\<close> leaves them: the static initialisers
  (zero where none is written) and the reference bounds assigned in the routine
  (the literal \<open>-0.1\<close> is not a binary32 value: the bound holds its rounding).\<close>

definition boot_globals :: globals where
  "boot_globals =
     \<lparr> mode = IDLEMODE, mode_asked = IDLEMODE, local_mode = FOLLOWING,
       inverter_on = False, pwm_enable = False, boost_pwm_enable = False,
       is_net_synchronized = False, is_downloading = False, trigger = False,
       Vlow_value = 0, Vac_value = 0, Ilow1_value = 0, Ilow2_value = 0,
       Vdc_bus = 0, Iac_value = 0, Vdc_bus_filt = 0, Vgrid_meas = 0, VN_meas = 0,
       Igrid_meas = 0, omega = 0, delta_duty_cycle = 0, duty_cycle_1 = 0,
       duty_cycle_2 = 0, duty_cycle_offset = 0, boost_duty_cycle = 5 / 100,
       critical_task_counter = 0, sync_counter = 0, desync_counter = 0,
       power_counter = 0,
       Vdq_ref = \<lparr> dqo_d = Finite 0, dqo_q = Finite 0 \<rparr>,
       Vdq_ref_max = \<lparr> dqo_d = Finite 30, dqo_q = Finite 30 \<rparr>,
       Vdq_ref_min = \<lparr> dqo_d = round_to_float32 (- (1 / 10)),
                       dqo_q = round_to_float32 (- (1 / 10)) \<rparr>,
       Idq_ref = \<lparr> dqo_d = Finite 0, dqo_q = Finite 0 \<rparr>,
       Idq_ref_max = \<lparr> dqo_d = Finite 8, dqo_q = Finite 1 \<rparr>,
       Idq_ref_min = \<lparr> dqo_d = round_to_float32 (- (1 / 10)),
                       dqo_q = round_to_float32 (- (1 / 10)) \<rparr>,
       user_cmd = \<lparr> mode_request = 0, cmd_inverter_on = False, vd_ref = Finite 0,
                    id_ref = Finite 0, scope_dump = False, scope_trigger = False \<rparr> \<rparr>"

section \<open>auxiliary.cpp: the command gateway\<close>

text \<open>\<open>app_apply_command\<close>, block by block. The reference clamp tests the upper
  bound, then the lower bound on the value the first test left.\<close>

definition latch_mode_request :: "globals \<Rightarrow> globals \<times> hw_call list" where
  "latch_mode_request s =
     (if mode_request (user_cmd s) = IDLEMODE then (s\<lparr>mode_asked := IDLEMODE\<rparr>, [])
      else if mode_request (user_cmd s) = POWERMODE then
        (s\<lparr>mode_asked := POWERMODE\<rparr>, if \<not> is_downloading s then [ScopeStart] else [])
      else (s, []))"

definition clamp_ref :: "ieee32 \<Rightarrow> ieee32 \<Rightarrow> ieee32 \<Rightarrow> ieee32" where
  "clamp_ref v ref_min ref_max =
     (let v1 = (if f_gt v ref_max then ref_max else v)
      in if f_lt v1 ref_min then ref_min else v1)"

definition apply_reference :: "globals \<Rightarrow> globals" where
  "apply_reference s =
     (if local_mode s = FORMING then
        (let vd = clamp_ref (vd_ref (user_cmd s)) (dqo_d (Vdq_ref_min s)) (dqo_d (Vdq_ref_max s))
         in s\<lparr>Vdq_ref := (Vdq_ref s)\<lparr>dqo_d := vd\<rparr>,
              user_cmd := (user_cmd s)\<lparr>vd_ref := vd\<rparr>\<rparr>)
      else
        (let idr = clamp_ref (id_ref (user_cmd s)) (dqo_d (Idq_ref_min s)) (dqo_d (Idq_ref_max s))
         in s\<lparr>Idq_ref := (Idq_ref s)\<lparr>dqo_d := idr\<rparr>,
              user_cmd := (user_cmd s)\<lparr>id_ref := idr\<rparr>\<rparr>))"

definition consume_scope_flags :: "globals \<Rightarrow> globals" where
  "consume_scope_flags s =
     (let s1 = (if scope_dump (user_cmd s)
                then s\<lparr>is_downloading := True, trigger := False,
                       user_cmd := (user_cmd s)\<lparr>scope_dump := False\<rparr>\<rparr>
                else s)
      in if scope_trigger (user_cmd s1)
         then s1\<lparr>trigger := True, user_cmd := (user_cmd s1)\<lparr>scope_trigger := False\<rparr>\<rparr>
         else s1)"

definition app_apply_command :: "globals \<Rightarrow> globals \<times> hw_call list" where
  "app_apply_command s =
     (let (s1, c1) = latch_mode_request s;
          s2 = s1\<lparr>inverter_on := cmd_inverter_on (user_cmd s1)\<rparr>;
          s3 = apply_reference s2
      in (consume_scope_flags s3, c1))"

section \<open>main.cpp: the low-rate task\<close>

text \<open>The \<open>switch (mode)\<close> of \<open>loop_application_task\<close>: the case is chosen on the
  mode at entry, the assignments inside a case follow each other, and the test on
  \<open>mode_asked\<close> after the switch is made in every case.\<close>

definition idle_case :: "globals \<Rightarrow> globals \<times> hw_call list" where
  "idle_case s =
     ((if mode_asked s = POWERMODE then s\<lparr>mode := POWERMODE\<rparr> else s), [LedTurnOn])"

definition startup_case :: "globals \<Rightarrow> globals \<times> hw_call list" where
  "startup_case s =
     (let s1 = (if \<not> inverter_on s then s\<lparr>mode := POWERMODE\<rparr> else s)
      in if local_mode s1 = FORMING \<and> delta_duty_cycle s1 > 49 / 100
         then (s1\<lparr>mode := POWERMODE\<rparr>, [])
         else if local_mode s1 = FOLLOWING \<and> is_net_synchronized s1
         then (s1\<lparr>mode := POWERMODE\<rparr>, if is_net_synchronized s1 then [LedToggle] else [])
         else (s1, []))"

definition power_case :: "globals \<Rightarrow> globals \<times> hw_call list" where
  "power_case s =
     (let s1 = (if mode_asked s = IDLEMODE then s\<lparr>mode := IDLEMODE\<rparr> else s)
      in if inverter_on s1 then
           (let s2 = (if local_mode s1 = FORMING then
                        (if Vdc_bus_filt s1 \<ge> UDC_STARTUP
                         then s1\<lparr>mode := STARTUPMODE\<rparr> else s1)
                      else
                        (if Vgrid_meas s1 \<ge> 10 \<and> Vdc_bus_filt s1 \<ge> UDC_STARTUP
                         then s1\<lparr>mode := STARTUPMODE\<rparr> else s1))
            in (s2, if is_net_synchronized s2 then [LedToggle] else []))
         else (s1, []))"

definition state_machine :: "globals \<Rightarrow> globals \<times> hw_call list" where
  "state_machine s =
     (let (s1, c1) =
            (if mode s = IDLEMODE then idle_case s
             else if mode s = STARTUPMODE then startup_case s
             else if mode s = POWERMODE then power_case s
             else (s, []))
      in ((if mode_asked s1 = IDLEMODE then s1\<lparr>mode := IDLEMODE\<rparr> else s1), c1))"

text \<open>The whole low-rate tick: the state machine, then the capture download in Idle.
  \<open>dump_scope_datas\<close> loops on the download state of the scope object, which belongs
  to the capture library; the download is one call here, and it writes none of the
  globals. The publication into \<open>user_live\<close> is left out.\<close>

definition loop_application_task :: "globals \<Rightarrow> globals \<times> hw_call list" where
  "loop_application_task s =
     (let (s1, c1) = state_machine s
      in if mode s1 = IDLEMODE \<and> is_downloading s1
         then (s1\<lparr>is_downloading := False\<rparr>, c1 @ [DumpScopeDatas])
         else (s1, c1))"

section \<open>main.cpp: the critical task\<close>

text \<open>One stage per block of \<open>loop_critical_task\<close>, in the order of the source. A stage
  returns the globals it leaves and the calls it made.\<close>

definition keep_or :: "float32_t option \<Rightarrow> float32_t \<Rightarrow> float32_t" where
  "keep_or meas_data previous = (case meas_data of None \<Rightarrow> previous | Some m \<Rightarrow> m)"

text \<open>Measurements: a channel without a fresh sample keeps its value; the two primary
  currents have their offset subtracted; then the derived quantities.\<close>

definition retrieve_measurements :: "tick_in \<Rightarrow> globals \<Rightarrow> globals" where
  "retrieve_measurements inp s =
     (let s1 = s\<lparr>Ilow1_value :=
                   (case sens_ILow1 inp of None \<Rightarrow> Ilow1_value s
                    | Some m \<Rightarrow> m - I1_current_offset),
                 Vlow_value := keep_or (sens_VLow inp) (Vlow_value s),
                 Vac_value := keep_or (sens_VAC inp) (Vac_value s),
                 Ilow2_value :=
                   (case sens_ILow2 inp of None \<Rightarrow> Ilow2_value s
                    | Some m \<Rightarrow> m - I2_current_offset),
                 Vdc_bus := keep_or (sens_VDCBus inp) (Vdc_bus s),
                 Iac_value := keep_or (sens_IAC inp) (Iac_value s),
                 Vdc_bus_filt := vHighFilter_out inp\<rparr>
      in s1\<lparr>Vgrid_meas := Vlow_value s1 - Vac_value s1,
            VN_meas := (Vlow_value s1 + Vac_value s1) / 2,
            Igrid_meas := Ilow1_value s1\<rparr>)"

definition overcurrent :: "globals \<Rightarrow> bool" where
  "overcurrent s \<longleftrightarrow>
     Ilow1_value s > MAX_CURRENT \<or> Ilow1_value s < - MAX_CURRENT
     \<or> Ilow2_value s > MAX_CURRENT \<or> Ilow2_value s < - MAX_CURRENT"

definition overcurrent_protection :: "globals \<Rightarrow> globals" where
  "overcurrent_protection s = (if overcurrent s then s\<lparr>mode := ERRORMODE\<rparr> else s)"

definition stop_in_idle_or_error :: "globals \<Rightarrow> globals \<times> hw_call list" where
  "stop_in_idle_or_error s =
     (if mode s = IDLEMODE \<or> mode s = ERRORMODE then
        (let (s1, c1) = (if pwm_enable s
                         then (s\<lparr>pwm_enable := False\<rparr>, [PowerStop ALL_LEGS, LedTurnOff])
                         else (s, []));
             (s2, c2) = (if boost_pwm_enable s1
                         then (s1\<lparr>boost_pwm_enable := False\<rparr>,
                               [PowerStop LEG1_LOW, PowerStop LEG2_LOW])
                         else (s1, []))
         in (s2, c1 @ c2))
      else (s, []))"

definition boost_stage :: "tick_in \<Rightarrow> globals \<Rightarrow> globals \<times> hw_call list" where
  "boost_stage inp s =
     (if mode s = STARTUPMODE \<or> mode s = POWERMODE then
        (let s1 = s\<lparr>boost_duty_cycle := boost_pid_out inp\<rparr>;
             c1 = [SetDeadTime LEG1_LOW boost_pos_dt boost_neg_dt,
                   SetDeadTime LEG2_LOW boost_pos_dt boost_neg_dt,
                   SetDutyCycle LEG1_LOW (boost_duty_cycle s1),
                   SetDutyCycle LEG2_LOW (boost_duty_cycle s1)]
         in if \<not> boost_pwm_enable s1
            then (s1\<lparr>boost_pwm_enable := True\<rparr>,
                  c1 @ [PowerStart LEG1_LOW, PowerStart LEG2_LOW])
            else (s1, c1))
      else (s, []))"

definition stop_inverter_when_off :: "globals \<Rightarrow> globals \<times> hw_call list" where
  "stop_inverter_when_off s =
     (if \<not> inverter_on s \<and> pwm_enable s
      then (s\<lparr>pwm_enable := False\<rparr>, [PowerStop LEG1_HIGH, PowerStop LEG2_HIGH])
      else (s, []))"

text \<open>The two synchronisation tests: strict in Startup, inclusive in Power.\<close>

definition in_band_strict :: "float32_t \<Rightarrow> bool" where
  "in_band_strict w \<longleftrightarrow> w < w0 + sync_power_tolerance \<and> w > w0 - sync_power_tolerance"

definition in_band :: "float32_t \<Rightarrow> bool" where
  "in_band w \<longleftrightarrow> w \<le> w0 + sync_power_tolerance \<and> w \<ge> w0 - sync_power_tolerance"

definition startup_forming :: "globals \<Rightarrow> globals \<times> hw_call list" where
  "startup_forming s =
     (let r = rate_limiter (Finite (1 / 2)) (Finite (delta_duty_cycle s)) (Finite 50);
          s1 = s\<lparr>delta_duty_cycle :=
                   (if f_gt r (Finite (1 / 2)) then 1 / 2 else real_of_ieee32 r)\<rparr>;
          c1 = [SetDutyCycle LEG2_HIGH (1 - delta_duty_cycle s1),
                SetDutyCycle LEG1_HIGH (delta_duty_cycle s1)]
      in if \<not> pwm_enable s1
         then (s1\<lparr>pwm_enable := True\<rparr>, c1 @ [PowerStart ALL_LEGS])
         else (s1, c1))"

definition startup_following :: "tick_in \<Rightarrow> globals \<Rightarrow> globals \<times> hw_call list" where
  "startup_following inp s =
     (let s1 = s\<lparr>omega := getw_out inp\<rparr>;
          c1 = [InverterCalculateDuty (Vgrid_meas s) (Igrid_meas s)]
      in if in_band_strict (omega s1) then
           (let s2 = s1\<lparr>sync_counter := sync_counter s1 + 1\<rparr>
            in if sync_counter s2 > 2000
               then (s2\<lparr>is_net_synchronized := True, sync_counter := 0\<rparr>, c1)
               else (s2, c1))
         else (s1\<lparr>sync_counter := 0, is_net_synchronized := False\<rparr>, c1))"

definition startup_stage :: "tick_in \<Rightarrow> globals \<Rightarrow> globals \<times> hw_call list" where
  "startup_stage inp s =
     (if mode s = STARTUPMODE \<and> inverter_on s then
        (if local_mode s = FORMING then startup_forming s else startup_following inp s)
      else (s, []))"

text \<open>The Power block, in four steps: the control law and the lock-loss counter; the
  references handed to the control law; the offset and the two leg duties; the delayed
  start in following sub-mode and the duty-cycle writes.\<close>

definition power_sync_monitor :: "tick_in \<Rightarrow> globals \<Rightarrow> globals \<times> hw_call list" where
  "power_sync_monitor inp s =
     (let s1 = s\<lparr>delta_duty_cycle := calculateDuty_out inp, omega := getw_out inp\<rparr>;
          c1 = [InverterCalculateDuty (Vgrid_meas s) (Igrid_meas s)];
          s2 = s1\<lparr>is_net_synchronized := in_band (omega s1)\<rparr>
      in if \<not> is_net_synchronized s2 then
           (let s3 = s2\<lparr>desync_counter := desync_counter s2 + 1\<rparr>
            in if desync_counter s3 > 200
               then (s3\<lparr>desync_counter := 0, sync_counter := 0,
                        mode_asked := IDLEMODE, mode := IDLEMODE\<rparr>,
                     c1 @ [Printk ''System no longer synchronized \<newline>''])
               else (s3, c1))
         else (s2, c1))"

definition power_set_references :: "globals \<Rightarrow> hw_call list" where
  "power_set_references s =
     [InverterSetVBus (Vdc_bus_filt s),
      (if local_mode s = FORMING then InverterSetVdqRef (Vdq_ref s)
       else InverterSetIdqRef (Idq_ref s))]"

text \<open>The seed of the offset is the float division \<open>VN_meas / Vdc_bus_filt\<close>; with a
  zero divisor the source gets an infinity or a NaN, which this model does not have,
  so statements about the seeded offset assume a non-zero filtered bus voltage.\<close>

definition power_duty_cycles :: "globals \<Rightarrow> globals" where
  "power_duty_cycles s =
     (let s1 = (if \<not> pwm_enable s
                then s\<lparr>duty_cycle_offset := VN_meas s / Vdc_bus_filt s\<rparr>
                else if duty_cycle_offset s < 1 / 2
                then s\<lparr>duty_cycle_offset :=
                         real_of_ieee32
                           (rate_limiter (Finite (1 / 2)) (Finite (duty_cycle_offset s))
                              (Finite 1))\<rparr>
                else s\<lparr>duty_cycle_offset := 1 / 2\<rparr>)
      in s1\<lparr>duty_cycle_1 := delta_duty_cycle s1 + duty_cycle_offset s1,
            duty_cycle_2 := - delta_duty_cycle s1 + duty_cycle_offset s1\<rparr>)"

definition power_delayed_start :: "globals \<Rightarrow> globals \<times> hw_call list" where
  "power_delayed_start s =
     (let (s1, c1) =
            (if local_mode s = FOLLOWING \<and> \<not> pwm_enable s then
               (let s0 = s\<lparr>power_counter := power_counter s + 1\<rparr>
                in if power_counter s0 > 2000
                   then (s0\<lparr>pwm_enable := True\<rparr>, [PowerStart ALL_LEGS])
                   else (s0, []))
             else (s, []))
      in (s1, c1 @ [SetDutyCycle LEG1_HIGH (duty_cycle_1 s1),
                    SetDutyCycle LEG2_HIGH (duty_cycle_2 s1)]))"

definition power_stage :: "tick_in \<Rightarrow> globals \<Rightarrow> globals \<times> hw_call list" where
  "power_stage inp s =
     (if mode s = POWERMODE \<and> inverter_on s then
        (let (s1, c1) = power_sync_monitor inp s;
             c2 = power_set_references s1;
             (s3, c3) = power_delayed_start (power_duty_cycles s1)
         in (s3, c1 @ c2 @ c3))
      else (s, []))"

definition debug_and_scope :: "tick_in \<Rightarrow> globals \<Rightarrow> globals \<times> hw_call list" where
  "debug_and_scope inp s =
     (s\<lparr>omega := getw_out inp\<rparr>,
      if critical_task_counter s mod decimation = 0 then [ScopeAcquire] else [])"

definition loop_critical_task :: "tick_in \<Rightarrow> globals \<Rightarrow> globals \<times> hw_call list" where
  "loop_critical_task inp s =
     (let s0 = overcurrent_protection
                 (retrieve_measurements inp
                    (s\<lparr>critical_task_counter := critical_task_counter s + 1\<rparr>));
          (s1, c1) = stop_in_idle_or_error s0;
          (s2, c2) = boost_stage inp s1;
          (s3, c3) = stop_inverter_when_off s2;
          (s4, c4) = startup_stage inp s3;
          (s5, c5) = power_stage inp s4;
          (s6, c6) = debug_and_scope inp s5
      in (s6, c1 @ c2 @ c3 @ c4 @ c5 @ c6))"

text \<open>Consecutive ticks of the critical task, one input record per tick; the calls of
  all the ticks in order.\<close>

fun run_critical :: "tick_in list \<Rightarrow> globals \<Rightarrow> globals \<times> hw_call list" where
  "run_critical [] s = (s, [])"
| "run_critical (inp # inps) s =
     (let (s1, c1) = loop_critical_task inp s;
          (s2, c2) = run_critical inps s1
      in (s2, c1 @ c2))"

definition is_stop :: "hw_call \<Rightarrow> bool" where
  "is_stop c = (case c of PowerStop l \<Rightarrow> True | _ \<Rightarrow> False)"

definition is_start_all :: "hw_call \<Rightarrow> bool" where
  "is_start_all c = (case c of PowerStart l \<Rightarrow> l = ALL_LEGS | _ \<Rightarrow> False)"

section \<open>Notions used in the statements\<close>

text \<open>A tick input whose fresh current samples, once calibrated, are within the
  overcurrent threshold; the condition under which the Power block trips to Idle;
  the offset the Power block computes, in terms of the globals before the tick and
  the tick input; the number of ticks of a run whose frequency is outside the
  inclusive band.\<close>

definition fresh_currents_ok :: "tick_in \<Rightarrow> bool" where
  "fresh_currents_ok inp \<longleftrightarrow>
     (case sens_ILow1 inp of None \<Rightarrow> True
      | Some m \<Rightarrow> - MAX_CURRENT \<le> m - I1_current_offset \<and> m - I1_current_offset \<le> MAX_CURRENT)
     \<and> (case sens_ILow2 inp of None \<Rightarrow> True
      | Some m \<Rightarrow> - MAX_CURRENT \<le> m - I2_current_offset \<and> m - I2_current_offset \<le> MAX_CURRENT)"

definition desync_trip :: "tick_in \<Rightarrow> globals \<Rightarrow> bool" where
  "desync_trip inp s \<longleftrightarrow> \<not> in_band (getw_out inp) \<and> desync_counter s + 1 > 200"

definition next_offset :: "tick_in \<Rightarrow> globals \<Rightarrow> float32_t" where
  "next_offset inp s =
     (if \<not> pwm_enable s then VN_meas (retrieve_measurements inp s) / vHighFilter_out inp
      else if duty_cycle_offset s < 1 / 2
      then real_of_ieee32
             (rate_limiter (Finite (1 / 2)) (Finite (duty_cycle_offset s)) (Finite 1))
      else 1 / 2)"

definition oob_count :: "tick_in list \<Rightarrow> nat" where
  "oob_count inps = length (filter (\<lambda>inp. \<not> in_band (getw_out inp)) inps)"

section \<open>Concrete states and inputs\<close>

text \<open>States and tick inputs at which the theorems below are instantiated.\<close>

definition cmd_id_10 :: globals where
  "cmd_id_10 = boot_globals\<lparr>user_cmd := (user_cmd boot_globals)\<lparr>id_ref := Finite 10\<rparr>\<rparr>"

definition cmd_id_nan :: globals where
  "cmd_id_nan = boot_globals\<lparr>user_cmd := (user_cmd boot_globals)\<lparr>id_ref := NaN\<rparr>\<rparr>"

definition cmd_vd_40 :: globals where
  "cmd_vd_40 = boot_globals\<lparr>local_mode := FORMING,
                             user_cmd := (user_cmd boot_globals)\<lparr>vd_ref := Finite 40\<rparr>\<rparr>"

definition cmd_startup_request :: globals where
  "cmd_startup_request =
     boot_globals\<lparr>mode_asked := POWERMODE,
                  user_cmd := (user_cmd boot_globals)\<lparr>mode_request := STARTUPMODE\<rparr>\<rparr>"

definition cmd_error_request :: globals where
  "cmd_error_request =
     boot_globals\<lparr>user_cmd := (user_cmd boot_globals)\<lparr>mode_request := ERRORMODE\<rparr>\<rparr>"

definition error_idle_asked :: globals where
  "error_idle_asked = boot_globals\<lparr>mode := ERRORMODE, mode_asked := IDLEMODE\<rparr>"

definition error_power_asked :: globals where
  "error_power_asked = boot_globals\<lparr>mode := ERRORMODE, mode_asked := POWERMODE\<rparr>"

definition nominal_in :: tick_in where
  "nominal_in =
     \<lparr> sens_ILow1 = None, sens_VLow = None, sens_VAC = None, sens_ILow2 = None,
       sens_VDCBus = None, sens_IAC = None, vHighFilter_out = 40, boost_pid_out = 1 / 2,
       calculateDuty_out = 0, getw_out = w0 \<rparr>"

definition off_band_in :: tick_in where
  "off_band_in = nominal_in\<lparr>getw_out := 0\<rparr>"

definition overcurrent_in :: tick_in where
  "overcurrent_in = nominal_in\<lparr>sens_ILow1 := Some (37 / 4)\<rparr>"


definition power_boot :: globals where
  "power_boot = boot_globals\<lparr>mode := POWERMODE, mode_asked := POWERMODE, inverter_on := True\<rparr>"

definition startup_boot :: globals where
  "startup_boot = boot_globals\<lparr>mode := STARTUPMODE, mode_asked := POWERMODE, inverter_on := True\<rparr>"

definition power_running :: globals where
  "power_running = power_boot\<lparr>pwm_enable := True, boost_pwm_enable := True,
                              duty_cycle_offset := 1 / 2, power_counter := 2001\<rparr>"

text \<open>The first entry into Power from boot until the legs are started, a tick with the
  inverter disabled (as the command gateway writes \<open>inverter_on\<close>), and the re-enabling.\<close>

definition energized :: globals where
  "energized = fst (run_critical (replicate 2001 nominal_in) power_boot)"

definition disabled :: globals where
  "disabled = fst (loop_critical_task nominal_in (energized\<lparr>inverter_on := False\<rparr>))"

definition reenabled :: globals where
  "reenabled = disabled\<lparr>inverter_on := True\<rparr>"

section \<open>Properties of the primitives\<close>

lemmas mode_defs = IDLEMODE_def POWERMODE_def ERRORMODE_def STARTUPMODE_def

subsection \<open>Rounding\<close>


lemma rne_bounds: "of_int (rne y) \<le> y + 1 / 2" "y - 1 / 2 \<le> of_int (rne y)"
  unfolding rne_def Let_def by (auto; linarith)+










lemma exponent32_eqI:
  assumes "0 < y" "y < 2 powr of_int (e + 1)" "- 126 \<le> e"
      and "2 powr of_int e \<le> y \<or> e = - 126"
  shows "exponent32 y = e"
proof (cases "2 powr of_int e \<le> y")
  case True
  then have "\<lfloor>log 2 y\<rfloor> = e"
    using assms(1,2) by (simp add: floor_log_eq_powr_iff)
  then show ?thesis
    using assms(1,3) by (simp add: exponent32_def)
next
  case False
  then have e: "e = - 126" using assms(4) by simp
  have "log 2 y < of_int (e + 1)" using assms(1,2) by (simp add: log_less_iff)
  then have "\<lfloor>log 2 y\<rfloor> \<le> e" by linarith
  then show ?thesis using assms(1) e by (simp add: exponent32_def)
qed











lemma round32_eval:
  assumes "x \<noteq> 0" "\<bar>x\<bar> < 2 powr of_int (e + 1)" "- 126 \<le> e"
      and "2 powr of_int e \<le> \<bar>x\<bar> \<or> e = - 126"
  shows "round32 x = of_int (rne (x / 2 powr of_int (e - 23))) * 2 powr of_int (e - 23)"
proof -
  have "exponent32 \<bar>x\<bar> = e"
    using assms by (intro exponent32_eqI) simp_all
  then have "exponent32 x = e" by (simp add: exponent32_def)
  then show ?thesis using assms(1) by (simp add: round32_def ulp32_def)
qed

lemmas eval32 = rne_def Let_def powr_minus_divide

lemma round_to_float32_Finite:
  "\<bar>round32 x\<bar> \<le> max_float32 \<Longrightarrow> round_to_float32 x = Finite (round32 x)"
  by (auto simp add: round_to_float32_def Let_def)




lemma round_to_float32_is_float32:
  "is_float32 v \<Longrightarrow> round_to_float32 v = Finite v"
  by (auto simp add: round_to_float32_def Let_def is_float32_def)



subsection \<open>Evaluating binary32 operations\<close>

lemma round_to_float32_eval:
  "round32 x = r \<Longrightarrow> \<bar>r\<bar> \<le> max_float32 \<Longrightarrow> round_to_float32 x = Finite r"
  by (auto simp add: round_to_float32_def Let_def)







lemma round32_tol: "round32 (1 / 1000) = 8589935 / 2 ^ 33"
  using round32_eval [of "1 / 1000" "- 10"] by (simp add: eval32)

lemma tol_value: "sign_default_tol = Finite (8589935 / 2 ^ 33)"
  unfolding sign_default_tol_def
  by (rule round_to_float32_eval [OF round32_tol]) (simp add: max_float32_def)

lemma round32_tenth: "round32 (- (1 / 10)) = - (13421773 / 2 ^ 27)"
  using round32_eval [of "- (1 / 10)" "- 4"] by (simp add: eval32)

lemma minus_tenth_value: "round_to_float32 (- (1 / 10)) = Finite (- (13421773 / 2 ^ 27))"
  by (rule round_to_float32_eval [OF round32_tenth]) (simp add: max_float32_def)

subsection \<open>saturate\<close>

text \<open>
  Claim C9, as stated for all \<open>x\<close>, \<open>min\<close>, \<open>max\<close>, fails in two ways. With
  \<open>min > max\<close>: \<open>saturate(2, 1, 0)\<close> is \<open>0\<close> (the upper test returns first), and
  saturating \<open>0\<close> again gives \<open>1\<close>; likewise \<open>0 \<le> 2\<close> but
  \<open>saturate(0, 1, 0) = 1 > 0 = saturate(2, 1, 0)\<close>. With \<open>x\<close> a NaN and \<open>0 \<le> 1\<close>: both
  tests are false, \<open>saturate(NaN, 0, 1)\<close> is NaN, and NaN \<open>==\<close> NaN is false.
\<close>

theorem C9_saturate_counterexample:
  "saturate (Finite 2) (Finite 1) (Finite 0) = Finite 0
   \<and> saturate (saturate (Finite 2) (Finite 1) (Finite 0)) (Finite 1) (Finite 0) = Finite 1
   \<and> \<not> f_eq (saturate (saturate (Finite 2) (Finite 1) (Finite 0)) (Finite 1) (Finite 0))
              (saturate (Finite 2) (Finite 1) (Finite 0))
   \<and> f_le (Finite 0) (Finite 2)
   \<and> saturate (Finite 0) (Finite 1) (Finite 0) = Finite 1
   \<and> \<not> f_le (saturate (Finite 0) (Finite 1) (Finite 0))
              (saturate (Finite 2) (Finite 1) (Finite 0))
   \<and> f_le (Finite 0) (Finite 1)
   \<and> saturate NaN (Finite 0) (Finite 1) = NaN
   \<and> \<not> f_eq (saturate (saturate NaN (Finite 0) (Finite 1)) (Finite 0) (Finite 1))
              (saturate NaN (Finite 0) (Finite 1))"
  by (simp add: saturate_def f_gt_def f_le_def f_eq_def)

text \<open>
  Claim C9 (amended): for all bounds with \<open>min \<le> max\<close>: saturating twice returns the
  value that saturating once returns, and for every \<open>x\<close> that is not a NaN
  \<open>saturate(saturate(x, min, max), min, max) == saturate(x, min, max)\<close>; and for all
  \<open>x\<close>, \<open>y\<close>, \<open>x \<le> y\<close> implies \<open>saturate(x, min, max) \<le> saturate(y, min, max)\<close>.
\<close>

theorem C9_saturate_idempotent_monotonic:
  assumes "f_le min_v max_v"
  shows "saturate (saturate x min_v max_v) min_v max_v = saturate x min_v max_v
       \<and> (x \<noteq> NaN \<longrightarrow>
            f_eq (saturate (saturate x min_v max_v) min_v max_v) (saturate x min_v max_v))
       \<and> (f_le x y \<longrightarrow> f_le (saturate x min_v max_v) (saturate y min_v max_v))"
proof -
  have same: "saturate (saturate x min_v max_v) min_v max_v = saturate x min_v max_v"
    using assms
    by (cases x; cases min_v; cases max_v) (auto simp add: saturate_def f_gt_def f_le_def)
  have not_nan: "saturate x min_v max_v \<noteq> NaN" if "x \<noteq> NaN"
    using assms that
    by (cases x; cases min_v; cases max_v) (auto simp add: saturate_def f_gt_def f_le_def)
  have mono: "f_le (saturate x min_v max_v) (saturate y min_v max_v)" if "f_le x y"
    using assms that
    by (cases x; cases y; cases min_v; cases max_v)
       (auto simp add: saturate_def f_gt_def f_le_def)
  show ?thesis
    using same not_nan mono by (simp add: f_eq_def)
qed

text \<open>The witness: the band \<open>[0, 1]\<close>, with \<open>x = 2\<close> and with \<open>x\<close> minus infinity.\<close>

theorem C9_saturate_idempotent_monotonic_witness:
  "f_le (Finite 0) (Finite 1)
   \<and> Finite 2 \<noteq> NaN
   \<and> saturate (Finite 2) (Finite 0) (Finite 1) = Finite 1
   \<and> f_eq (saturate (saturate (Finite 2) (Finite 0) (Finite 1)) (Finite 0) (Finite 1))
           (saturate (Finite 2) (Finite 0) (Finite 1))
   \<and> f_le MinusInf (Finite 2)
   \<and> f_le (saturate MinusInf (Finite 0) (Finite 1)) (saturate (Finite 2) (Finite 0) (Finite 1))"
  using C9_saturate_idempotent_monotonic [of "Finite 0" "Finite 1" "Finite 2" "Finite 2"]
        C9_saturate_idempotent_monotonic [of "Finite 0" "Finite 1" MinusInf "Finite 2"]
  by (simp add: saturate_def f_gt_def f_le_def f_eq_def)

subsection \<open>The rate limiter\<close>


lemma f_le_refl: "a \<noteq> NaN \<Longrightarrow> f_le a a"
  by (cases a) (auto simp add: f_le_def)

lemma tol_pos: "sign_default_tol = Finite t \<Longrightarrow> 0 < t"
  by (simp add: tol_value)






lemma fadd_zero: "is_float32 v \<Longrightarrow> fadd (Finite v) (Finite 0) = Finite v"
  by (simp add: round_to_float32_is_float32)







subsection \<open>The rate limiter at concrete values\<close>

lemma max_ok: "\<bar>x\<bar> \<le> 4097 \<Longrightarrow> \<bar>x\<bar> \<le> max_float32"
  by (simp add: max_float32_def)


lemma is_float32_m2048: "is_float32 (- 2048)"
  using round32_eval [of "- 2048" 11] by (simp add: is_float32_def eval32 max_float32_def)













section \<open>The command gateway\<close>

lemma latch_keeps:
  "local_mode (fst (latch_mode_request s)) = local_mode s"
  "user_cmd (fst (latch_mode_request s)) = user_cmd s"
  "Idq_ref_min (fst (latch_mode_request s)) = Idq_ref_min s"
  "Idq_ref_max (fst (latch_mode_request s)) = Idq_ref_max s"
  "Vdq_ref_min (fst (latch_mode_request s)) = Vdq_ref_min s"
  "Vdq_ref_max (fst (latch_mode_request s)) = Vdq_ref_max s"
  by (simp_all add: latch_mode_request_def)

lemma consume_keeps:
  "Idq_ref (consume_scope_flags s) = Idq_ref s"
  "Vdq_ref (consume_scope_flags s) = Vdq_ref s"
  "id_ref (user_cmd (consume_scope_flags s)) = id_ref (user_cmd s)"
  "vd_ref (user_cmd (consume_scope_flags s)) = vd_ref (user_cmd s)"
  "mode_asked (consume_scope_flags s) = mode_asked s"
  by (simp_all add: consume_scope_flags_def Let_def)

lemma app_apply_command_following:
  assumes "local_mode s \<noteq> FORMING"
  shows "dqo_d (Idq_ref (fst (app_apply_command s)))
           = clamp_ref (id_ref (user_cmd s)) (dqo_d (Idq_ref_min s)) (dqo_d (Idq_ref_max s))"
    and "id_ref (user_cmd (fst (app_apply_command s)))
           = clamp_ref (id_ref (user_cmd s)) (dqo_d (Idq_ref_min s)) (dqo_d (Idq_ref_max s))"
  using assms
  by (simp_all add: app_apply_command_def split_def Let_def consume_keeps apply_reference_def latch_keeps)

lemma app_apply_command_forming:
  assumes "local_mode s = FORMING"
  shows "dqo_d (Vdq_ref (fst (app_apply_command s)))
           = clamp_ref (vd_ref (user_cmd s)) (dqo_d (Vdq_ref_min s)) (dqo_d (Vdq_ref_max s))"
    and "vd_ref (user_cmd (fst (app_apply_command s)))
           = clamp_ref (vd_ref (user_cmd s)) (dqo_d (Vdq_ref_min s)) (dqo_d (Vdq_ref_max s))"
  using assms
  by (simp_all add: app_apply_command_def split_def Let_def consume_keeps apply_reference_def latch_keeps)

lemma clamp_ref_NaN: "clamp_ref NaN lo hi = NaN"
  by (simp add: clamp_ref_def f_gt_def)

lemma clamp_ref_in_band:
  assumes "f_le lo hi" "v \<noteq> NaN"
  shows "f_le lo (clamp_ref v lo hi) \<and> f_le (clamp_ref v lo hi) hi
         \<and> clamp_ref v lo hi = (if f_gt v hi then hi else if f_lt v lo then lo else v)"
  using assms
  by (cases v; cases lo; cases hi) (auto simp add: clamp_ref_def Let_def f_gt_def f_le_def)

text \<open>
  Claim C5, as stated for every invocation, fails for a received \<open>id_ref\<close> that is a
  NaN (the command field is written by the protocol layer with any binary32 value):
  both tests of the clamp are false, so after \<open>setup_routine\<close> (bounds \<open>-0.1\<close> and \<open>8\<close>,
  following sub-mode) the NaN is stored in \<open>Idq_ref.d\<close> and written back, and it is not
  in the band.
\<close>

theorem C5_nan_reference_counterexample:
  "local_mode cmd_id_nan = FOLLOWING
   \<and> dqo_d (Idq_ref_min cmd_id_nan) = Finite (- (13421773 / 2 ^ 27))
   \<and> dqo_d (Idq_ref_max cmd_id_nan) = Finite 8
   \<and> id_ref (user_cmd cmd_id_nan) = NaN
   \<and> dqo_d (Idq_ref (fst (app_apply_command cmd_id_nan))) = NaN
   \<and> id_ref (user_cmd (fst (app_apply_command cmd_id_nan))) = NaN
   \<and> \<not> f_le (dqo_d (Idq_ref_min cmd_id_nan)) (dqo_d (Idq_ref (fst (app_apply_command cmd_id_nan))))
   \<and> \<not> f_le (dqo_d (Idq_ref (fst (app_apply_command cmd_id_nan)))) (dqo_d (Idq_ref_max cmd_id_nan))"
proof -
  have f: "local_mode cmd_id_nan \<noteq> FORMING" "local_mode cmd_id_nan = FOLLOWING"
    "id_ref (user_cmd cmd_id_nan) = NaN"
    "dqo_d (Idq_ref_min cmd_id_nan) = Finite (- (13421773 / 2 ^ 27))"
    "dqo_d (Idq_ref_max cmd_id_nan) = Finite 8"
    by (simp_all add: cmd_id_nan_def boot_globals_def minus_tenth_value)
  show ?thesis
    by (simp add: app_apply_command_following [OF f(1)] f clamp_ref_NaN f_le_def)
qed

text \<open>
  Claim C5 (amended): in following sub-mode \<open>app_apply_command\<close> writes back into the
  command field \<open>id_ref\<close> the value it stores into \<open>Idq_ref.d\<close>; when the received
  \<open>id_ref\<close> is not a NaN and the bounds satisfy \<open>Idq_ref_min.d \<le> Idq_ref_max.d\<close>, that
  value is the received one clamped into the band \<open>[Idq_ref_min.d, Idq_ref_max.d]\<close> (the
  upper bound above it, the lower bound below it, the value itself inside). In
  forming sub-mode the same holds of \<open>vd_ref\<close>, \<open>Vdq_ref.d\<close> and the \<open>Vdq\<close> bounds.
\<close>

theorem C5_reference_clamped_and_written_back:
  "(local_mode s = FOLLOWING \<longrightarrow>
      id_ref (user_cmd (fst (app_apply_command s)))
        = dqo_d (Idq_ref (fst (app_apply_command s))))
   \<and> (local_mode s = FOLLOWING \<and> f_le (dqo_d (Idq_ref_min s)) (dqo_d (Idq_ref_max s))
        \<and> id_ref (user_cmd s) \<noteq> NaN \<longrightarrow>
      f_le (dqo_d (Idq_ref_min s)) (dqo_d (Idq_ref (fst (app_apply_command s))))
      \<and> f_le (dqo_d (Idq_ref (fst (app_apply_command s)))) (dqo_d (Idq_ref_max s))
      \<and> dqo_d (Idq_ref (fst (app_apply_command s)))
          = (if f_gt (id_ref (user_cmd s)) (dqo_d (Idq_ref_max s)) then dqo_d (Idq_ref_max s)
             else if f_lt (id_ref (user_cmd s)) (dqo_d (Idq_ref_min s)) then dqo_d (Idq_ref_min s)
             else id_ref (user_cmd s)))
   \<and> (local_mode s = FORMING \<longrightarrow>
      vd_ref (user_cmd (fst (app_apply_command s)))
        = dqo_d (Vdq_ref (fst (app_apply_command s))))
   \<and> (local_mode s = FORMING \<and> f_le (dqo_d (Vdq_ref_min s)) (dqo_d (Vdq_ref_max s))
        \<and> vd_ref (user_cmd s) \<noteq> NaN \<longrightarrow>
      f_le (dqo_d (Vdq_ref_min s)) (dqo_d (Vdq_ref (fst (app_apply_command s))))
      \<and> f_le (dqo_d (Vdq_ref (fst (app_apply_command s)))) (dqo_d (Vdq_ref_max s))
      \<and> dqo_d (Vdq_ref (fst (app_apply_command s)))
          = (if f_gt (vd_ref (user_cmd s)) (dqo_d (Vdq_ref_max s)) then dqo_d (Vdq_ref_max s)
             else if f_lt (vd_ref (user_cmd s)) (dqo_d (Vdq_ref_min s)) then dqo_d (Vdq_ref_min s)
             else vd_ref (user_cmd s)))"
proof -
  have a: "id_ref (user_cmd (fst (app_apply_command s)))
        = dqo_d (Idq_ref (fst (app_apply_command s)))" if "local_mode s = FOLLOWING"
    using that by (simp add: app_apply_command_following)
  have b: "f_le (dqo_d (Idq_ref_min s)) (dqo_d (Idq_ref (fst (app_apply_command s))))
      \<and> f_le (dqo_d (Idq_ref (fst (app_apply_command s)))) (dqo_d (Idq_ref_max s))
      \<and> dqo_d (Idq_ref (fst (app_apply_command s)))
          = (if f_gt (id_ref (user_cmd s)) (dqo_d (Idq_ref_max s)) then dqo_d (Idq_ref_max s)
             else if f_lt (id_ref (user_cmd s)) (dqo_d (Idq_ref_min s)) then dqo_d (Idq_ref_min s)
             else id_ref (user_cmd s))"
    if "local_mode s = FOLLOWING" "f_le (dqo_d (Idq_ref_min s)) (dqo_d (Idq_ref_max s))"
       "id_ref (user_cmd s) \<noteq> NaN"
    unfolding app_apply_command_following(1) [of s, simplified that(1), simplified]
    by (rule clamp_ref_in_band [OF that(2,3)])
  have c: "vd_ref (user_cmd (fst (app_apply_command s)))
        = dqo_d (Vdq_ref (fst (app_apply_command s)))" if "local_mode s = FORMING"
    using that by (simp add: app_apply_command_forming)
  have d: "f_le (dqo_d (Vdq_ref_min s)) (dqo_d (Vdq_ref (fst (app_apply_command s))))
      \<and> f_le (dqo_d (Vdq_ref (fst (app_apply_command s)))) (dqo_d (Vdq_ref_max s))
      \<and> dqo_d (Vdq_ref (fst (app_apply_command s)))
          = (if f_gt (vd_ref (user_cmd s)) (dqo_d (Vdq_ref_max s)) then dqo_d (Vdq_ref_max s)
             else if f_lt (vd_ref (user_cmd s)) (dqo_d (Vdq_ref_min s)) then dqo_d (Vdq_ref_min s)
             else vd_ref (user_cmd s))"
    if "local_mode s = FORMING" "f_le (dqo_d (Vdq_ref_min s)) (dqo_d (Vdq_ref_max s))"
       "vd_ref (user_cmd s) \<noteq> NaN"
    unfolding app_apply_command_forming(1) [OF that(1)]
    by (rule clamp_ref_in_band [OF that(2,3)])
  from a b c d show ?thesis by blast
qed

text \<open>The witness: after \<open>setup_routine\<close> (bounds \<open>-0.1\<close> and \<open>8\<close>, following sub-mode) a
  write of \<open>id_ref = 10\<close> is stored and read back as \<open>8\<close>; in forming sub-mode (bounds
  \<open>-0.1\<close> and \<open>30\<close>) a write of \<open>vd_ref = 40\<close> is stored and read back as \<open>30\<close>.\<close>

theorem C5_reference_clamped_and_written_back_witness:
  "local_mode cmd_id_10 = FOLLOWING
   \<and> f_le (dqo_d (Idq_ref_min cmd_id_10)) (dqo_d (Idq_ref_max cmd_id_10))
   \<and> id_ref (user_cmd cmd_id_10) = Finite 10
   \<and> dqo_d (Idq_ref (fst (app_apply_command cmd_id_10))) = Finite 8
   \<and> id_ref (user_cmd (fst (app_apply_command cmd_id_10))) = Finite 8
   \<and> local_mode cmd_vd_40 = FORMING
   \<and> f_le (dqo_d (Vdq_ref_min cmd_vd_40)) (dqo_d (Vdq_ref_max cmd_vd_40))
   \<and> vd_ref (user_cmd cmd_vd_40) = Finite 40
   \<and> dqo_d (Vdq_ref (fst (app_apply_command cmd_vd_40))) = Finite 30
   \<and> vd_ref (user_cmd (fst (app_apply_command cmd_vd_40))) = Finite 30"
  using C5_reference_clamped_and_written_back [of cmd_id_10] C5_reference_clamped_and_written_back [of cmd_vd_40]
  by (simp add: cmd_id_10_def cmd_vd_40_def boot_globals_def minus_tenth_value
      f_le_def f_gt_def)

lemma mode_asked_apply_reference: "mode_asked (apply_reference s) = mode_asked s"
  by (simp add: apply_reference_def Let_def)

text \<open>
  Claim C10: when \<open>mode_request\<close> is neither Idle (0) nor Power (1), for instance
  Error (3) or Startup (4), \<open>app_apply_command\<close> leaves \<open>mode_asked\<close> unchanged; so
  whatever the command, \<open>mode_asked\<close> afterwards is its previous value, Idle or Power.
\<close>

theorem C10_other_mode_request_not_latched:
  "(mode_request (user_cmd s) \<noteq> IDLEMODE \<and> mode_request (user_cmd s) \<noteq> POWERMODE \<longrightarrow>
      mode_asked (fst (app_apply_command s)) = mode_asked s)
   \<and> (mode_asked (fst (app_apply_command s)) = mode_asked s
        \<or> mode_asked (fst (app_apply_command s)) = IDLEMODE
        \<or> mode_asked (fst (app_apply_command s)) = POWERMODE)"
  by (simp add: app_apply_command_def split_def Let_def consume_keeps
      mode_asked_apply_reference latch_mode_request_def)

theorem C10_other_mode_request_not_latched_witness:
  "mode_request (user_cmd cmd_startup_request) = STARTUPMODE
   \<and> mode_request (user_cmd cmd_startup_request) \<noteq> IDLEMODE
   \<and> mode_request (user_cmd cmd_startup_request) \<noteq> POWERMODE
   \<and> mode_asked (fst (app_apply_command cmd_startup_request)) = POWERMODE
   \<and> mode_request (user_cmd cmd_error_request) = ERRORMODE
   \<and> mode_request (user_cmd cmd_error_request) \<noteq> IDLEMODE
   \<and> mode_request (user_cmd cmd_error_request) \<noteq> POWERMODE
   \<and> mode_asked (fst (app_apply_command cmd_error_request)) = IDLEMODE"
  using C10_other_mode_request_not_latched [of cmd_startup_request]
        C10_other_mode_request_not_latched [of cmd_error_request]
  by (simp add: cmd_startup_request_def cmd_error_request_def boot_globals_def mode_defs)

section \<open>The low-rate state machine\<close>

lemma state_machine_idle:
  "mode_asked s = IDLEMODE \<Longrightarrow> mode (fst (state_machine s)) = IDLEMODE"
  by (simp add: state_machine_def idle_case_def startup_case_def power_case_def
      Let_def split_def mode_defs)

lemma state_machine_error:
  "mode_asked s \<noteq> IDLEMODE \<Longrightarrow> mode s = ERRORMODE \<Longrightarrow> mode (fst (state_machine s)) = ERRORMODE"
  by (simp add: state_machine_def Let_def split_def mode_defs)

lemma mode_loop_application_task:
  "mode (fst (loop_application_task s)) = mode (fst (state_machine s))"
  by (simp add: loop_application_task_def split_def Let_def)

text \<open>
  Claim C8: after a low-rate tick whose requested mode is Idle the mode is Idle,
  whatever the mode was before, Error included; and when the requested mode is not
  Idle, a tick that starts in Error ends in Error.
\<close>

theorem C8_idle_override_and_error_kept:
  "(mode_asked s = IDLEMODE \<longrightarrow> mode (fst (loop_application_task s)) = IDLEMODE)
   \<and> (mode_asked s \<noteq> IDLEMODE \<and> mode s = ERRORMODE \<longrightarrow>
        mode (fst (loop_application_task s)) = ERRORMODE)"
  by (simp add: mode_loop_application_task state_machine_idle state_machine_error)

theorem C8_idle_override_and_error_kept_witness:
  "mode error_idle_asked = ERRORMODE \<and> mode_asked error_idle_asked = IDLEMODE
   \<and> mode (fst (loop_application_task error_idle_asked)) = IDLEMODE
   \<and> mode error_power_asked = ERRORMODE \<and> mode_asked error_power_asked \<noteq> IDLEMODE
   \<and> mode (fst (loop_application_task error_power_asked)) = ERRORMODE"
  using C8_idle_override_and_error_kept [of error_idle_asked]
        C8_idle_override_and_error_kept [of error_power_asked]
  by (simp add: error_idle_asked_def error_power_asked_def boot_globals_def mode_defs)

section \<open>The critical task, stage by stage\<close>

lemma retrieve_measurements_counter:
  "retrieve_measurements inp (s\<lparr>critical_task_counter := c\<rparr>)
     = (retrieve_measurements inp s)\<lparr>critical_task_counter := c\<rparr>"
  by (simp add: retrieve_measurements_def Let_def cong: option.case_cong)

lemma retrieve_measurements_keeps:
  "mode (retrieve_measurements inp s) = mode s"
  "mode_asked (retrieve_measurements inp s) = mode_asked s"
  "local_mode (retrieve_measurements inp s) = local_mode s"
  "inverter_on (retrieve_measurements inp s) = inverter_on s"
  "pwm_enable (retrieve_measurements inp s) = pwm_enable s"
  "boost_pwm_enable (retrieve_measurements inp s) = boost_pwm_enable s"
  "is_net_synchronized (retrieve_measurements inp s) = is_net_synchronized s"
  "sync_counter (retrieve_measurements inp s) = sync_counter s"
  "desync_counter (retrieve_measurements inp s) = desync_counter s"
  "power_counter (retrieve_measurements inp s) = power_counter s"
  "critical_task_counter (retrieve_measurements inp s) = critical_task_counter s"
  "delta_duty_cycle (retrieve_measurements inp s) = delta_duty_cycle s"
  "duty_cycle_offset (retrieve_measurements inp s) = duty_cycle_offset s"
  "Vdc_bus_filt (retrieve_measurements inp s) = vHighFilter_out inp"
  "Vdq_ref (retrieve_measurements inp s) = Vdq_ref s"
  "Idq_ref (retrieve_measurements inp s) = Idq_ref s"
  by (simp_all add: retrieve_measurements_def Let_def)

lemma overcurrent_update:
  "overcurrent (s\<lparr>critical_task_counter := c\<rparr>) = overcurrent s"
  by (simp add: overcurrent_def)

lemma overcurrent_after_sampling:
  "\<not> overcurrent s \<Longrightarrow> fresh_currents_ok inp \<Longrightarrow> \<not> overcurrent (retrieve_measurements inp s)"
  by (auto simp add: overcurrent_def retrieve_measurements_def Let_def fresh_currents_ok_def
      split: option.splits)

lemma stop_in_idle_or_error_other:
  "mode s \<noteq> IDLEMODE \<Longrightarrow> mode s \<noteq> ERRORMODE \<Longrightarrow> stop_in_idle_or_error s = (s, [])"
  by (simp add: stop_in_idle_or_error_def)

lemma stop_in_idle_or_error_stops:
  "mode s = IDLEMODE \<or> mode s = ERRORMODE \<Longrightarrow>
   stop_in_idle_or_error s =
     (s\<lparr>pwm_enable := False, boost_pwm_enable := False\<rparr>,
      (if pwm_enable s then [PowerStop ALL_LEGS, LedTurnOff] else [])
      @ (if boost_pwm_enable s then [PowerStop LEG1_LOW, PowerStop LEG2_LOW] else []))"
  by (cases "pwm_enable s"; cases "boost_pwm_enable s") (auto simp add: stop_in_idle_or_error_def)

lemma boost_stage_active:
  "mode s = STARTUPMODE \<or> mode s = POWERMODE \<Longrightarrow>
   boost_stage inp s =
     (s\<lparr>boost_duty_cycle := boost_pid_out inp, boost_pwm_enable := True\<rparr>,
      [SetDeadTime LEG1_LOW boost_pos_dt boost_neg_dt,
       SetDeadTime LEG2_LOW boost_pos_dt boost_neg_dt,
       SetDutyCycle LEG1_LOW (boost_pid_out inp),
       SetDutyCycle LEG2_LOW (boost_pid_out inp)]
      @ (if boost_pwm_enable s then [] else [PowerStart LEG1_LOW, PowerStart LEG2_LOW]))"
  by (cases "boost_pwm_enable s") (auto simp add: boost_stage_def Let_def)

lemma boost_stage_inactive:
  "mode s \<noteq> STARTUPMODE \<Longrightarrow> mode s \<noteq> POWERMODE \<Longrightarrow> boost_stage inp s = (s, [])"
  by (simp add: boost_stage_def)

lemma stop_inverter_when_off_closed:
  "stop_inverter_when_off s =
     (s\<lparr>pwm_enable := inverter_on s \<and> pwm_enable s\<rparr>,
      if \<not> inverter_on s \<and> pwm_enable s then [PowerStop LEG1_HIGH, PowerStop LEG2_HIGH] else [])"
  by (cases "pwm_enable s"; cases "inverter_on s") (auto simp add: stop_inverter_when_off_def)

lemma startup_stage_skip:
  "mode s \<noteq> STARTUPMODE \<or> \<not> inverter_on s \<Longrightarrow> startup_stage inp s = (s, [])"
  by (auto simp add: startup_stage_def)

lemma startup_stage_following:
  "mode s = STARTUPMODE \<Longrightarrow> inverter_on s \<Longrightarrow> local_mode s = FOLLOWING \<Longrightarrow>
   startup_stage inp s =
     (s\<lparr>omega := getw_out inp,
        sync_counter :=
          (if in_band_strict (getw_out inp) \<and> \<not> sync_counter s + 1 > 2000
           then sync_counter s + 1 else 0),
        is_net_synchronized :=
          (if in_band_strict (getw_out inp)
           then (sync_counter s + 1 > 2000 \<or> is_net_synchronized s) else False)\<rparr>,
      [InverterCalculateDuty (Vgrid_meas s) (Igrid_meas s)])"
  by (cases "is_net_synchronized s") (auto simp add: startup_stage_def startup_following_def Let_def)

lemma power_stage_skip:
  "mode s \<noteq> POWERMODE \<or> \<not> inverter_on s \<Longrightarrow> power_stage inp s = (s, [])"
  by (auto simp add: power_stage_def)

lemma power_sync_monitor_closed:
  "power_sync_monitor inp s =
     (s\<lparr>delta_duty_cycle := calculateDuty_out inp,
        omega := getw_out inp,
        is_net_synchronized := in_band (getw_out inp),
        desync_counter :=
          (if in_band (getw_out inp) then desync_counter s
           else if desync_counter s + 1 > 200 then 0 else desync_counter s + 1),
        sync_counter := (if desync_trip inp s then 0 else sync_counter s),
        mode_asked := (if desync_trip inp s then IDLEMODE else mode_asked s),
        mode := (if desync_trip inp s then IDLEMODE else mode s)\<rparr>,
      InverterCalculateDuty (Vgrid_meas s) (Igrid_meas s)
      # (if desync_trip inp s then [Printk ''System no longer synchronized \<newline>''] else []))"
  by (cases "in_band (getw_out inp)"; cases "desync_counter s + 1 > 200")
     (auto simp add: power_sync_monitor_def desync_trip_def Let_def)

lemma power_delayed_start_closed:
  "power_delayed_start s =
     (s\<lparr>power_counter :=
          (if local_mode s = FOLLOWING \<and> \<not> pwm_enable s
           then power_counter s + 1 else power_counter s),
        pwm_enable :=
          (pwm_enable s \<or> (local_mode s = FOLLOWING \<and> power_counter s + 1 > 2000))\<rparr>,
      (if local_mode s = FOLLOWING \<and> \<not> pwm_enable s \<and> power_counter s + 1 > 2000
       then [PowerStart ALL_LEGS] else [])
      @ [SetDutyCycle LEG1_HIGH (duty_cycle_1 s), SetDutyCycle LEG2_HIGH (duty_cycle_2 s)])"
  by (cases "local_mode s = FOLLOWING"; cases "pwm_enable s"; cases "power_counter s + 1 > 2000")
     (auto simp add: power_delayed_start_def Let_def)

lemma scope_every_tick: "c mod decimation = 0"
  by (simp add: decimation_def)

lemma tick_overcurrent:
  assumes "overcurrent (retrieve_measurements inp s)"
  shows "loop_critical_task inp s =
     ((retrieve_measurements inp s)
        \<lparr>critical_task_counter := critical_task_counter s + 1,
         mode := ERRORMODE, pwm_enable := False, boost_pwm_enable := False,
         omega := getw_out inp\<rparr>,
      (if pwm_enable s then [PowerStop ALL_LEGS, LedTurnOff] else [])
      @ (if boost_pwm_enable s then [PowerStop LEG1_LOW, PowerStop LEG2_LOW] else [])
      @ [ScopeAcquire])"
  using assms
  by (simp add: loop_critical_task_def Let_def retrieve_measurements_counter
      overcurrent_protection_def overcurrent_update stop_in_idle_or_error_stops
      boost_stage_inactive stop_inverter_when_off_closed startup_stage_skip power_stage_skip
      debug_and_scope_def scope_every_tick retrieve_measurements_keeps mode_defs)

lemma tick_idle_or_error:
  assumes "mode s = IDLEMODE \<or> mode s = ERRORMODE"
      and "\<not> overcurrent (retrieve_measurements inp s)"
  shows "loop_critical_task inp s =
     ((retrieve_measurements inp s)
        \<lparr>critical_task_counter := critical_task_counter s + 1,
         pwm_enable := False, boost_pwm_enable := False,
         omega := getw_out inp\<rparr>,
      (if pwm_enable s then [PowerStop ALL_LEGS, LedTurnOff] else [])
      @ (if boost_pwm_enable s then [PowerStop LEG1_LOW, PowerStop LEG2_LOW] else [])
      @ [ScopeAcquire])"
  using assms
  by (auto simp add: loop_critical_task_def Let_def retrieve_measurements_counter
      overcurrent_protection_def overcurrent_update stop_in_idle_or_error_stops
      boost_stage_inactive stop_inverter_when_off_closed startup_stage_skip power_stage_skip
      debug_and_scope_def scope_every_tick retrieve_measurements_keeps mode_defs)

lemma tick_startup_following:
  assumes "mode s = STARTUPMODE" "inverter_on s" "local_mode s = FOLLOWING"
      and "\<not> overcurrent (retrieve_measurements inp s)"
  shows "fst (loop_critical_task inp s) =
     (retrieve_measurements inp s)
        \<lparr>critical_task_counter := critical_task_counter s + 1,
         boost_duty_cycle := boost_pid_out inp, boost_pwm_enable := True,
         sync_counter :=
           (if in_band_strict (getw_out inp) \<and> \<not> sync_counter s + 1 > 2000
            then sync_counter s + 1 else 0),
         is_net_synchronized :=
           (if in_band_strict (getw_out inp)
            then (sync_counter s + 1 > 2000 \<or> is_net_synchronized s) else False),
         omega := getw_out inp\<rparr>"
  using assms
  by (simp add: loop_critical_task_def Let_def retrieve_measurements_counter
      overcurrent_protection_def overcurrent_update stop_in_idle_or_error_other
      boost_stage_active stop_inverter_when_off_closed startup_stage_following power_stage_skip
      debug_and_scope_def scope_every_tick retrieve_measurements_keeps mode_defs)

lemma tick_power:
  assumes "mode s = POWERMODE" "inverter_on s"
      and "\<not> overcurrent (retrieve_measurements inp s)"
  shows "fst (loop_critical_task inp s) =
     (retrieve_measurements inp s)
        \<lparr>critical_task_counter := critical_task_counter s + 1,
         boost_duty_cycle := boost_pid_out inp, boost_pwm_enable := True,
         delta_duty_cycle := calculateDuty_out inp,
         is_net_synchronized := in_band (getw_out inp),
         desync_counter :=
           (if in_band (getw_out inp) then desync_counter s
            else if desync_counter s + 1 > 200 then 0 else desync_counter s + 1),
         sync_counter := (if desync_trip inp s then 0 else sync_counter s),
         mode_asked := (if desync_trip inp s then IDLEMODE else mode_asked s),
         mode := (if desync_trip inp s then IDLEMODE else POWERMODE),
         duty_cycle_offset := next_offset inp s,
         duty_cycle_1 := calculateDuty_out inp + next_offset inp s,
         duty_cycle_2 := - calculateDuty_out inp + next_offset inp s,
         power_counter :=
           (if local_mode s = FOLLOWING \<and> \<not> pwm_enable s
            then power_counter s + 1 else power_counter s),
         pwm_enable :=
           (pwm_enable s \<or> (local_mode s = FOLLOWING \<and> power_counter s + 1 > 2000)),
         omega := getw_out inp\<rparr>"
    and "snd (loop_critical_task inp s) =
      [SetDeadTime LEG1_LOW boost_pos_dt boost_neg_dt,
       SetDeadTime LEG2_LOW boost_pos_dt boost_neg_dt,
       SetDutyCycle LEG1_LOW (boost_pid_out inp),
       SetDutyCycle LEG2_LOW (boost_pid_out inp)]
      @ (if boost_pwm_enable s then [] else [PowerStart LEG1_LOW, PowerStart LEG2_LOW])
      @ InverterCalculateDuty (Vgrid_meas (retrieve_measurements inp s))
                              (Igrid_meas (retrieve_measurements inp s))
      # (if desync_trip inp s then [Printk ''System no longer synchronized \<newline>''] else [])
      @ [InverterSetVBus (vHighFilter_out inp),
         (if local_mode s = FORMING then InverterSetVdqRef (Vdq_ref s)
          else InverterSetIdqRef (Idq_ref s))]
      @ (if local_mode s = FOLLOWING \<and> \<not> pwm_enable s \<and> power_counter s + 1 > 2000
         then [PowerStart ALL_LEGS] else [])
      @ [SetDutyCycle LEG1_HIGH (calculateDuty_out inp + next_offset inp s),
         SetDutyCycle LEG2_HIGH (- calculateDuty_out inp + next_offset inp s),
         ScopeAcquire]"
  using assms
  by (simp_all add: loop_critical_task_def Let_def retrieve_measurements_counter
      overcurrent_protection_def overcurrent_update stop_in_idle_or_error_other
      boost_stage_active stop_inverter_when_off_closed startup_stage_skip
      power_stage_def power_sync_monitor_closed power_duty_cycles_def
      power_delayed_start_closed power_set_references_def next_offset_def
      debug_and_scope_def scope_every_tick retrieve_measurements_keeps mode_defs desync_trip_def)

subsection \<open>Counters and the band\<close>

lemma unat_succ32:
  fixes x :: "32 word"
  assumes "unat x \<le> 2001"
  shows "unat (x + 1) = unat x + 1"
  using assms by (simp add: unat_word_ariths)

lemma gt2000_iff:
  fixes x :: "32 word"
  assumes "unat x \<le> 2001"
  shows "(x + 1 > 2000) \<longleftrightarrow> 2000 \<le> unat x"
  using assms by (auto simp add: word_less_nat_alt unat_word_ariths)

lemma gt200_iff:
  fixes x :: "32 word"
  assumes "unat x \<le> 2001"
  shows "(x + 1 > 200) \<longleftrightarrow> 200 \<le> unat x"
  using assms by (auto simp add: word_less_nat_alt unat_word_ariths)

lemma w0_pos: "0 < w0"
  by (simp add: w0_def f0_def)

lemma band_w0: "in_band w0" "in_band_strict w0"
  using w0_pos by (simp_all add: in_band_def in_band_strict_def sync_power_tolerance_def)

lemma band_zero: "\<not> in_band 0" "\<not> in_band_strict 0"
  using w0_pos by (simp_all add: in_band_def in_band_strict_def sync_power_tolerance_def)

lemma fst_run_Cons:
  "fst (run_critical (inp # inps) s) = fst (run_critical inps (fst (loop_critical_task inp s)))"
  by (simp add: split_def Let_def)

lemma snd_run_Cons:
  "snd (run_critical (inp # inps) s) =
     snd (loop_critical_task inp s) @ snd (run_critical inps (fst (loop_critical_task inp s)))"
  by (simp add: split_def Let_def)

lemma run_critical_append:
  "run_critical (xs @ ys) s =
     (fst (run_critical ys (fst (run_critical xs s))),
      snd (run_critical xs s) @ snd (run_critical ys (fst (run_critical xs s))))"
  by (induction xs arbitrary: s) (simp_all add: split_def Let_def)

subsection \<open>Runs in Startup, following sub-mode\<close>

lemma startup_following_run:
  assumes "mode s = STARTUPMODE" "inverter_on s" "local_mode s = FOLLOWING" "\<not> overcurrent s"
      and "\<forall>inp\<in>set inps. fresh_currents_ok inp \<and> in_band_strict (getw_out inp)"
      and "unat (sync_counter s) + length inps \<le> 2000"
  shows "mode (fst (run_critical inps s)) = STARTUPMODE
       \<and> inverter_on (fst (run_critical inps s))
       \<and> local_mode (fst (run_critical inps s)) = FOLLOWING
       \<and> \<not> overcurrent (fst (run_critical inps s))
       \<and> unat (sync_counter (fst (run_critical inps s))) = unat (sync_counter s) + length inps
       \<and> is_net_synchronized (fst (run_critical inps s)) = is_net_synchronized s"
  using assms
proof (induction inps arbitrary: s)
  case Nil
  then show ?case by simp
next
  case (Cons inp inps)
  let ?t = "fst (loop_critical_task inp s)"
  have ok: "\<not> overcurrent (retrieve_measurements inp s)"
    using Cons.prems by (simp add: overcurrent_after_sampling)
  have small: "unat (sync_counter s) \<le> 2001" "\<not> 2000 \<le> unat (sync_counter s)"
    using Cons.prems(6) by simp_all
  have band: "in_band_strict (getw_out inp)" using Cons.prems(5) by simp
  note t = tick_startup_following [OF Cons.prems(1-3) ok]
  have t1: "mode ?t = STARTUPMODE" "inverter_on ?t" "local_mode ?t = FOLLOWING"
    using Cons.prems(1-3) by (simp_all add: t retrieve_measurements_keeps)
  have t2: "\<not> overcurrent ?t"
    using ok by (simp add: t overcurrent_def)
  have t3: "sync_counter ?t = sync_counter s + 1"
    using band small by (simp add: t gt2000_iff retrieve_measurements_keeps)
  have t4: "is_net_synchronized ?t = is_net_synchronized s"
    using band small by (simp add: t gt2000_iff retrieve_measurements_keeps)
  have t5: "unat (sync_counter ?t) = unat (sync_counter s) + 1"
    using small by (simp add: t3 unat_succ32)
  have "unat (sync_counter ?t) + length inps \<le> 2000"
    using Cons.prems(6) t5 by simp
  from Cons.IH [OF t1 t2 _ this] Cons.prems(5) t4 t5
  show ?case by (simp add: fst_run_Cons del: run_critical.simps)
qed

lemma startup_following_lock:
  assumes "mode s = STARTUPMODE" "inverter_on s" "local_mode s = FOLLOWING" "\<not> overcurrent s"
      and "fresh_currents_ok inp" "in_band_strict (getw_out inp)"
      and "unat (sync_counter s) = 2000"
  shows "is_net_synchronized (fst (loop_critical_task inp s))"
    and "sync_counter (fst (loop_critical_task inp s)) = 0"
proof -
  have ok: "\<not> overcurrent (retrieve_measurements inp s)"
    using assms by (simp add: overcurrent_after_sampling)
  have small: "unat (sync_counter s) \<le> 2001" "2000 \<le> unat (sync_counter s)"
    using assms(7) by simp_all
  note t = tick_startup_following [OF assms(1-3) ok]
  show "is_net_synchronized (fst (loop_critical_task inp s))"
    using assms(6) small by (simp add: t gt2000_iff)
  show "sync_counter (fst (loop_critical_task inp s)) = 0"
    using assms(6) small by (simp add: t gt2000_iff)
qed

lemma startup_following_unlock:
  assumes "mode s = STARTUPMODE" "inverter_on s" "local_mode s = FOLLOWING"
      and "\<not> overcurrent (retrieve_measurements inp s)" "\<not> in_band_strict (getw_out inp)"
  shows "sync_counter (fst (loop_critical_task inp s)) = 0"
    and "\<not> is_net_synchronized (fst (loop_critical_task inp s))"
  using assms(5) by (simp_all add: tick_startup_following [OF assms(1-4)])

lemma startup_boot_facts:
  "mode startup_boot = STARTUPMODE" "inverter_on startup_boot"
  "local_mode startup_boot = FOLLOWING" "\<not> overcurrent startup_boot"
  "sync_counter startup_boot = 0" "\<not> is_net_synchronized startup_boot"
  by (simp_all add: startup_boot_def boot_globals_def overcurrent_def MAX_CURRENT_def)

lemma nominal_in_facts:
  "fresh_currents_ok nominal_in" "in_band_strict (getw_out nominal_in)"
  "in_band (getw_out nominal_in)"
  by (simp_all add: nominal_in_def fresh_currents_ok_def band_w0)

lemma off_band_in_facts:
  "fresh_currents_ok off_band_in" "\<not> in_band_strict (getw_out off_band_in)"
  "\<not> in_band (getw_out off_band_in)"
  by (simp_all add: off_band_in_def nominal_in_def fresh_currents_ok_def band_zero)

text \<open>
  Claim C4, as stated, has a run of exactly 2000 in-band ticks set
  \<open>is_net_synchronized\<close>. The source increments \<open>sync_counter\<close> and then tests
  \<open>sync_counter > 2000\<close>: from a zero counter, in Startup and following sub-mode with
  the inverter enabled, 2000 ticks at the nominal frequency leave the counter at 2000
  and \<open>is_net_synchronized\<close> false.
\<close>

theorem C4_lock_acquire_counterexample:
  "\<not> is_net_synchronized (fst (run_critical (replicate 2000 nominal_in) startup_boot))
   \<and> sync_counter (fst (run_critical (replicate 2000 nominal_in) startup_boot)) = 2000"
  using startup_following_run [of startup_boot "replicate 2000 nominal_in"]
  by (simp add: startup_boot_facts nominal_in_facts word_unat_eq_iff)

text \<open>
  Claim C4 (amended): in Startup mode, following sub-mode, with the inverter enabled
  and no overcurrent: from a zero lock-acquire counter, a run of 2000 or fewer
  consecutive in-band ticks never sets \<open>is_net_synchronized\<close> (the counter holds the
  length of the run); a run of exactly 2001 consecutive in-band ticks sets
  \<open>is_net_synchronized\<close> to true and resets the counter to zero; and any tick with the
  frequency out of band resets the counter to zero and clears \<open>is_net_synchronized\<close>.
  In band is the strict test of the source, \<open>w0 - tol < omega < w0 + tol\<close>.
\<close>

theorem C4_lock_acquire_2001_ticks:
  assumes "mode s = STARTUPMODE" "inverter_on s" "local_mode s = FOLLOWING" "\<not> overcurrent s"
      and "\<forall>inp\<in>set inps. fresh_currents_ok inp \<and> in_band_strict (getw_out inp)"
  shows "(sync_counter s = 0 \<and> \<not> is_net_synchronized s \<and> length inps \<le> 2000 \<longrightarrow>
            \<not> is_net_synchronized (fst (run_critical inps s))
            \<and> unat (sync_counter (fst (run_critical inps s))) = length inps)
       \<and> (sync_counter s = 0 \<and> length inps = 2001 \<longrightarrow>
            is_net_synchronized (fst (run_critical inps s))
            \<and> sync_counter (fst (run_critical inps s)) = 0)
       \<and> (fresh_currents_ok inp \<and> \<not> in_band_strict (getw_out inp) \<longrightarrow>
            sync_counter (fst (loop_critical_task inp s)) = 0
            \<and> \<not> is_net_synchronized (fst (loop_critical_task inp s)))"
proof (intro conjI impI; (elim conjE)?)
  assume "sync_counter s = 0" "\<not> is_net_synchronized s" "length inps \<le> 2000"
  then show "\<not> is_net_synchronized (fst (run_critical inps s))"
    and "unat (sync_counter (fst (run_critical inps s))) = length inps"
    using startup_following_run [OF assms] by simp_all
next
  assume z: "sync_counter s = 0" and len: "length inps = 2001"
  from len obtain pre inp' where split: "inps = pre @ [inp']" and lp: "length pre = 2000"
    by (cases inps rule: rev_cases) auto
  let ?m = "fst (run_critical pre s)"
  have pre_ok: "\<forall>inp\<in>set pre. fresh_currents_ok inp \<and> in_band_strict (getw_out inp)"
    and last_ok: "fresh_currents_ok inp'" "in_band_strict (getw_out inp')"
    using assms(5) split by simp_all
  have m: "mode ?m = STARTUPMODE" "inverter_on ?m" "local_mode ?m = FOLLOWING"
    "\<not> overcurrent ?m" "unat (sync_counter ?m) = 2000"
    using startup_following_run [OF assms(1-4) pre_ok] z lp by simp_all
  have run: "fst (run_critical inps s) = fst (loop_critical_task inp' ?m)"
    by (simp add: split run_critical_append split_def Let_def)
  show "is_net_synchronized (fst (run_critical inps s))"
    and "sync_counter (fst (run_critical inps s)) = 0"
    using startup_following_lock [OF m(1-4) last_ok m(5)] by (simp_all add: run)
next
  assume f: "fresh_currents_ok inp" and nb: "\<not> in_band_strict (getw_out inp)"
  have ok: "\<not> overcurrent (retrieve_measurements inp s)"
    using assms(4) f by (simp add: overcurrent_after_sampling)
  show "sync_counter (fst (loop_critical_task inp s)) = 0"
    and "\<not> is_net_synchronized (fst (loop_critical_task inp s))"
    using startup_following_unlock [OF assms(1-3) ok nb] by simp_all
qed

text \<open>The witness: the state after boot put in Startup with the inverter enabled, ticks
  at the nominal frequency, and one tick at frequency zero.\<close>

theorem C4_lock_acquire_2001_ticks_witness:
  "mode startup_boot = STARTUPMODE \<and> inverter_on startup_boot
   \<and> local_mode startup_boot = FOLLOWING \<and> \<not> overcurrent startup_boot
   \<and> set (replicate 2001 nominal_in) = {nominal_in}
   \<and> set (replicate 2000 nominal_in) = {nominal_in}
   \<and> fresh_currents_ok nominal_in \<and> in_band_strict (getw_out nominal_in)
   \<and> sync_counter startup_boot = 0 \<and> \<not> is_net_synchronized startup_boot
   \<and> length (replicate 2000 nominal_in) \<le> 2000
   \<and> \<not> is_net_synchronized (fst (run_critical (replicate 2000 nominal_in) startup_boot))
   \<and> length (replicate 2001 nominal_in) = 2001
   \<and> is_net_synchronized (fst (run_critical (replicate 2001 nominal_in) startup_boot))
   \<and> sync_counter (fst (run_critical (replicate 2001 nominal_in) startup_boot)) = 0
   \<and> fresh_currents_ok off_band_in \<and> \<not> in_band_strict (getw_out off_band_in)
   \<and> sync_counter (fst (loop_critical_task off_band_in startup_boot)) = 0
   \<and> \<not> is_net_synchronized (fst (loop_critical_task off_band_in startup_boot))"
  using C4_lock_acquire_2001_ticks [of startup_boot "replicate 2001 nominal_in" off_band_in]
        C4_lock_acquire_2001_ticks [of startup_boot "replicate 2000 nominal_in" off_band_in]
  by (simp add: startup_boot_facts nominal_in_facts off_band_in_facts)

subsection \<open>Runs in Power\<close>

lemma tick_power_fields:
  assumes "mode s = POWERMODE" "inverter_on s" "\<not> overcurrent s" "fresh_currents_ok inp"
  shows "inverter_on (fst (loop_critical_task inp s))"
    and "local_mode (fst (loop_critical_task inp s)) = local_mode s"
    and "\<not> overcurrent (fst (loop_critical_task inp s))"
    and "mode (fst (loop_critical_task inp s)) = (if desync_trip inp s then IDLEMODE else POWERMODE)"
    and "mode_asked (fst (loop_critical_task inp s)) =
           (if desync_trip inp s then IDLEMODE else mode_asked s)"
    and "desync_counter (fst (loop_critical_task inp s)) =
           (if in_band (getw_out inp) then desync_counter s
            else if desync_counter s + 1 > 200 then 0 else desync_counter s + 1)"
    and "power_counter (fst (loop_critical_task inp s)) =
           (if local_mode s = FOLLOWING \<and> \<not> pwm_enable s
            then power_counter s + 1 else power_counter s)"
    and "pwm_enable (fst (loop_critical_task inp s)) =
           (pwm_enable s \<or> (local_mode s = FOLLOWING \<and> power_counter s + 1 > 2000))"
    and "filter is_start_all (snd (loop_critical_task inp s)) =
           (if local_mode s = FOLLOWING \<and> \<not> pwm_enable s \<and> power_counter s + 1 > 2000
            then [PowerStart ALL_LEGS] else [])"
proof -
  have ok: "\<not> overcurrent (retrieve_measurements inp s)"
    using assms by (simp add: overcurrent_after_sampling)
  note t = tick_power [OF assms(1,2) ok]
  show "inverter_on (fst (loop_critical_task inp s))"
    using assms(2) by (simp add: t(1) retrieve_measurements_keeps)
  show "local_mode (fst (loop_critical_task inp s)) = local_mode s"
    by (simp add: t(1) retrieve_measurements_keeps)
  show "\<not> overcurrent (fst (loop_critical_task inp s))"
    using ok by (simp add: t(1) overcurrent_def)
  show "mode (fst (loop_critical_task inp s)) = (if desync_trip inp s then IDLEMODE else POWERMODE)"
    by (simp add: t(1))
  show "mode_asked (fst (loop_critical_task inp s)) =
           (if desync_trip inp s then IDLEMODE else mode_asked s)"
    by (simp add: t(1) retrieve_measurements_keeps)
  show "desync_counter (fst (loop_critical_task inp s)) =
           (if in_band (getw_out inp) then desync_counter s
            else if desync_counter s + 1 > 200 then 0 else desync_counter s + 1)"
    by (simp add: t(1) retrieve_measurements_keeps)
  show "power_counter (fst (loop_critical_task inp s)) =
           (if local_mode s = FOLLOWING \<and> \<not> pwm_enable s
            then power_counter s + 1 else power_counter s)"
    by (simp add: t(1) retrieve_measurements_keeps)
  show "pwm_enable (fst (loop_critical_task inp s)) =
           (pwm_enable s \<or> (local_mode s = FOLLOWING \<and> power_counter s + 1 > 2000))"
    by (simp add: t(1) retrieve_measurements_keeps)
  show "filter is_start_all (snd (loop_critical_task inp s)) =
           (if local_mode s = FOLLOWING \<and> \<not> pwm_enable s \<and> power_counter s + 1 > 2000
            then [PowerStart ALL_LEGS] else [])"
    by (simp add: t(2) is_start_all_def)
qed

lemma oob_count_Cons:
  "oob_count (inp # inps) = (if in_band (getw_out inp) then 0 else 1) + oob_count inps"
  by (simp add: oob_count_def)

lemma power_run:
  assumes "mode s = POWERMODE" "inverter_on s" "\<not> overcurrent s"
      and "\<forall>inp\<in>set inps. fresh_currents_ok inp"
      and "unat (desync_counter s) + oob_count inps \<le> 200"
  shows "mode (fst (run_critical inps s)) = POWERMODE
       \<and> mode_asked (fst (run_critical inps s)) = mode_asked s
       \<and> inverter_on (fst (run_critical inps s))
       \<and> local_mode (fst (run_critical inps s)) = local_mode s
       \<and> \<not> overcurrent (fst (run_critical inps s))
       \<and> unat (desync_counter (fst (run_critical inps s)))
           = unat (desync_counter s) + oob_count inps"
  using assms
proof (induction inps arbitrary: s)
  case Nil
  then show ?case by (simp add: oob_count_def)
next
  case (Cons inp inps)
  let ?t = "fst (loop_critical_task inp s)"
  have f: "fresh_currents_ok inp" using Cons.prems(4) by simp
  note t = tick_power_fields [OF Cons.prems(1-3) f]
  have small: "unat (desync_counter s) \<le> 2001" using Cons.prems(5) by simp
  have notrip: "\<not> desync_trip inp s"
    using Cons.prems(5)
    by (auto simp add: desync_trip_def gt200_iff [OF small] oob_count_Cons split: if_splits)
  have d: "unat (desync_counter ?t)
            = unat (desync_counter s) + (if in_band (getw_out inp) then 0 else 1)"
    using Cons.prems(5)
    by (auto simp add: t(6) gt200_iff [OF small] unat_succ32 [OF small] oob_count_Cons
        split: if_splits)
  have budget: "unat (desync_counter ?t) + oob_count inps \<le> 200"
    using Cons.prems(5) d by (simp add: oob_count_Cons)
  have t1: "mode ?t = POWERMODE" using notrip by (simp add: t(4))
  have t5: "mode_asked ?t = mode_asked s" using notrip by (simp add: t(5))
  have rest: "\<forall>inp\<in>set inps. fresh_currents_ok inp" using Cons.prems(4) by simp
  from Cons.IH [OF t1 t(1) t(3) rest budget] d t5 t(2)
  show ?case by (simp add: fst_run_Cons oob_count_Cons del: run_critical.simps)
qed

lemma power_run_start:
  assumes "mode s = POWERMODE" "inverter_on s" "\<not> overcurrent s" "local_mode s = FOLLOWING"
      and "\<forall>inp\<in>set inps. fresh_currents_ok inp"
      and "unat (desync_counter s) + oob_count inps \<le> 200"
  shows "(pwm_enable s \<longrightarrow>
            pwm_enable (fst (run_critical inps s))
            \<and> power_counter (fst (run_critical inps s)) = power_counter s
            \<and> filter is_start_all (snd (run_critical inps s)) = [])
       \<and> (\<not> pwm_enable s \<and> unat (power_counter s) + length inps \<le> 2000 \<longrightarrow>
            \<not> pwm_enable (fst (run_critical inps s))
            \<and> unat (power_counter (fst (run_critical inps s)))
                = unat (power_counter s) + length inps
            \<and> filter is_start_all (snd (run_critical inps s)) = [])
       \<and> (\<not> pwm_enable s \<and> unat (power_counter s) \<le> 2000
            \<and> 2000 < unat (power_counter s) + length inps \<longrightarrow>
            pwm_enable (fst (run_critical inps s))
            \<and> unat (power_counter (fst (run_critical inps s))) = 2001
            \<and> filter is_start_all (snd (run_critical inps s)) = [PowerStart ALL_LEGS])"
  using assms
proof (induction inps arbitrary: s)
  case Nil
  then show ?case by simp
next
  case (Cons inp inps)
  let ?t = "fst (loop_critical_task inp s)"
  have f: "fresh_currents_ok inp" using Cons.prems(5) by simp
  note t = tick_power_fields [OF Cons.prems(1-3) f]
  have first: "unat (desync_counter s) + oob_count [inp] \<le> 200"
    using Cons.prems(6) by (auto simp add: oob_count_def split: if_splits)
  have one: "mode ?t = POWERMODE" "unat (desync_counter ?t) = unat (desync_counter s) + oob_count [inp]"
    using power_run [OF Cons.prems(1-3) _ first, of] f by (simp_all add: split_def Let_def)
  have budget: "unat (desync_counter ?t) + oob_count inps \<le> 200"
    using Cons.prems(6) one(2) by (auto simp add: oob_count_def split: if_splits)
  have lm: "local_mode ?t = FOLLOWING" using Cons.prems(4) by (simp add: t(2))
  have rest: "\<forall>inp\<in>set inps. fresh_currents_ok inp" using Cons.prems(5) by simp
  note IH = Cons.IH [OF one(1) t(1) t(3) lm rest budget]
  show ?case
  proof (cases "pwm_enable s")
    case True
    then have "pwm_enable ?t" "power_counter ?t = power_counter s"
      "filter is_start_all (snd (loop_critical_task inp s)) = []"
      by (simp_all add: t(7,8,9))
    with IH True show ?thesis
      by (simp add: fst_run_Cons snd_run_Cons del: run_critical.simps)
  next
    case False
    show ?thesis
    proof (cases "unat (power_counter s) \<le> 2000")
      case big: False
      with False show ?thesis by simp
    next
      case le: True
      then have small: "unat (power_counter s) \<le> 2001" by simp
      show ?thesis
      proof (cases "unat (power_counter s) = 2000")
        case True
        then have "pwm_enable ?t" "unat (power_counter ?t) = 2001"
          "filter is_start_all (snd (loop_critical_task inp s)) = [PowerStart ALL_LEGS]"
          using False Cons.prems(4)
          by (simp_all add: t(7,8,9) gt2000_iff [OF small] unat_succ32 [OF small])
        with IH False True show ?thesis
          by (simp add: fst_run_Cons snd_run_Cons del: run_critical.simps)
      next
        case lt: False
        then have "\<not> pwm_enable ?t" "unat (power_counter ?t) = unat (power_counter s) + 1"
          "filter is_start_all (snd (loop_critical_task inp s)) = []"
          using False le Cons.prems(4)
          by (simp_all add: t(7,8,9) gt2000_iff [OF small] unat_succ32 [OF small])
        with IH False le lt show ?thesis
          by (simp add: fst_run_Cons snd_run_Cons del: run_critical.simps)
      qed
    qed
  qed
qed

lemma tick_power_off:
  assumes "mode s = POWERMODE" "\<not> inverter_on s"
      and "\<not> overcurrent (retrieve_measurements inp s)"
  shows "loop_critical_task inp s =
     ((retrieve_measurements inp s)
        \<lparr>critical_task_counter := critical_task_counter s + 1,
         boost_duty_cycle := boost_pid_out inp, boost_pwm_enable := True,
         pwm_enable := False, omega := getw_out inp\<rparr>,
      [SetDeadTime LEG1_LOW boost_pos_dt boost_neg_dt,
       SetDeadTime LEG2_LOW boost_pos_dt boost_neg_dt,
       SetDutyCycle LEG1_LOW (boost_pid_out inp),
       SetDutyCycle LEG2_LOW (boost_pid_out inp)]
      @ (if boost_pwm_enable s then [] else [PowerStart LEG1_LOW, PowerStart LEG2_LOW])
      @ (if pwm_enable s then [PowerStop LEG1_HIGH, PowerStop LEG2_HIGH] else [])
      @ [ScopeAcquire])"
  using assms
  by (simp add: loop_critical_task_def Let_def retrieve_measurements_counter
      overcurrent_protection_def overcurrent_update stop_in_idle_or_error_other
      boost_stage_active stop_inverter_when_off_closed startup_stage_skip power_stage_skip
      debug_and_scope_def scope_every_tick retrieve_measurements_keeps mode_defs)

lemma power_boot_facts:
  "mode power_boot = POWERMODE" "inverter_on power_boot" "\<not> overcurrent power_boot"
  "local_mode power_boot = FOLLOWING" "\<not> pwm_enable power_boot"
  "power_counter power_boot = 0" "desync_counter power_boot = 0"
  "mode_asked power_boot = POWERMODE"
  by (simp_all add: power_boot_def boot_globals_def overcurrent_def MAX_CURRENT_def)

lemma oob_count_replicate:
  "oob_count (replicate n nominal_in) = 0" "oob_count (replicate n off_band_in) = n"
  by (simp_all add: oob_count_def nominal_in_facts off_band_in_facts)

lemma energized_facts:
  "mode energized = POWERMODE" "inverter_on energized" "\<not> overcurrent energized"
  "local_mode energized = FOLLOWING" "pwm_enable energized"
  "unat (power_counter energized) = 2001"
  using power_run [of power_boot "replicate 2001 nominal_in"]
        power_run_start [of power_boot "replicate 2001 nominal_in"]
  by (simp_all add: energized_def power_boot_facts nominal_in_facts oob_count_replicate)

lemma overcurrent_inverter_on:
  "overcurrent (s\<lparr>inverter_on := b\<rparr>) = overcurrent s"
  by (simp add: overcurrent_def)

lemma reenabled_facts:
  "mode reenabled = POWERMODE" "inverter_on reenabled" "\<not> overcurrent reenabled"
  "local_mode reenabled = FOLLOWING" "\<not> pwm_enable reenabled"
  "unat (power_counter reenabled) = 2001"
proof -
  have ok: "\<not> overcurrent (retrieve_measurements nominal_in (energized\<lparr>inverter_on := False\<rparr>))"
    by (rule overcurrent_after_sampling)
       (simp_all add: overcurrent_inverter_on energized_facts nominal_in_facts)
  have t: "disabled =
     (retrieve_measurements nominal_in (energized\<lparr>inverter_on := False\<rparr>))
        \<lparr>critical_task_counter := critical_task_counter energized + 1,
         boost_duty_cycle := boost_pid_out nominal_in, boost_pwm_enable := True,
         pwm_enable := False, omega := getw_out nominal_in\<rparr>"
    unfolding disabled_def
    using tick_power_off [OF _ _ ok] by (simp add: energized_facts)
  show "mode reenabled = POWERMODE" "inverter_on reenabled"
    "local_mode reenabled = FOLLOWING" "\<not> pwm_enable reenabled"
    "unat (power_counter reenabled) = 2001"
    by (simp_all add: reenabled_def t retrieve_measurements_keeps energized_facts)
  show "\<not> overcurrent reenabled"
    using ok by (simp add: reenabled_def t overcurrent_def)
qed

text \<open>
  Claim C6: the start of the inverter legs is to be delayed by 2000 ticks at every
  entry into closed-loop regulation. \<open>power_counter\<close> is never written but by its
  increment (the two other counters are reset where they fire). From boot in Power,
  following sub-mode, inverter enabled: the first 2000 ticks issue no start and tick
  2001 starts the legs (counter at 2001); a tick with the inverter disabled clears the
  PWM flag and leaves the counter at 2001; once the inverter is enabled again, the
  very first tick of the new entry starts the legs, with no delay.
\<close>

theorem C6_power_counter_not_reset:
  "filter is_start_all (snd (run_critical (replicate 2000 nominal_in) power_boot)) = []
   \<and> filter is_start_all (snd (run_critical (replicate 2001 nominal_in) power_boot))
       = [PowerStart ALL_LEGS]
   \<and> pwm_enable energized \<and> power_counter energized = 2001
   \<and> \<not> pwm_enable disabled \<and> power_counter disabled = 2001
   \<and> mode reenabled = POWERMODE \<and> inverter_on reenabled \<and> local_mode reenabled = FOLLOWING
   \<and> \<not> pwm_enable reenabled \<and> power_counter reenabled = 2001
   \<and> filter is_start_all (snd (loop_critical_task nominal_in reenabled)) = [PowerStart ALL_LEGS]"
proof -
  have first: "filter is_start_all (snd (run_critical (replicate 2000 nominal_in) power_boot)) = []"
    "filter is_start_all (snd (run_critical (replicate 2001 nominal_in) power_boot))
       = [PowerStart ALL_LEGS]"
    using power_run_start [of power_boot "replicate 2000 nominal_in"]
          power_run_start [of power_boot "replicate 2001 nominal_in"]
    by (simp_all add: power_boot_facts nominal_in_facts oob_count_replicate)
  have e: "power_counter energized = 2001"
    using energized_facts(6) by (simp add: word_unat_eq_iff)
  have r: "power_counter reenabled = 2001"
    using reenabled_facts(6) by (simp add: word_unat_eq_iff)
  have d: "\<not> pwm_enable disabled" "power_counter disabled = 2001"
    using reenabled_facts(5) r by (simp_all add: reenabled_def)
  have small: "unat (power_counter reenabled) \<le> 2001" by (simp add: reenabled_facts)
  have last: "filter is_start_all (snd (loop_critical_task nominal_in reenabled)) = [PowerStart ALL_LEGS]"
    using tick_power_fields(9) [of reenabled nominal_in]
    by (simp add: reenabled_facts nominal_in_facts gt2000_iff [OF small])
  show ?thesis
    using first e d r last by (simp add: energized_facts reenabled_facts)
qed

text \<open>
  Claim C3: the lock-loss counter is to reset to zero on any in-band tick, so that
  only 200 consecutive out-of-band ticks trip to Idle. The Power block has no branch
  for the in-band tick (the Startup block resets its counter in the \<open>else\<close>): after 200
  out-of-band ticks the counter is 200, an in-band tick leaves it at 200 and the mode
  in Power, and a single further out-of-band tick forces mode and requested mode to
  Idle.
\<close>

theorem C3_lock_loss_counter_not_reset:
  "desync_counter (fst (run_critical (replicate 200 off_band_in) power_boot)) = 200
   \<and> desync_counter (fst (run_critical (replicate 200 off_band_in @ [nominal_in]) power_boot)) = 200
   \<and> mode (fst (run_critical (replicate 200 off_band_in @ [nominal_in]) power_boot)) = POWERMODE
   \<and> mode (fst (run_critical (replicate 200 off_band_in @ [nominal_in, off_band_in]) power_boot))
       = IDLEMODE
   \<and> mode_asked (fst (run_critical (replicate 200 off_band_in @ [nominal_in, off_band_in]) power_boot))
       = IDLEMODE"
proof -
  let ?a = "fst (run_critical (replicate 200 off_band_in) power_boot)"
  let ?b = "fst (run_critical (replicate 200 off_band_in @ [nominal_in]) power_boot)"
  have a: "unat (desync_counter ?a) = 200"
    using power_run [of power_boot "replicate 200 off_band_in"]
    by (simp add: power_boot_facts off_band_in_facts oob_count_replicate)
  have cnt: "oob_count (replicate 200 off_band_in @ [nominal_in]) = 200"
    by (simp add: oob_count_def nominal_in_facts off_band_in_facts)
  have b: "mode ?b = POWERMODE" "inverter_on ?b" "\<not> overcurrent ?b"
    "unat (desync_counter ?b) = 200"
    using power_run [of power_boot "replicate 200 off_band_in @ [nominal_in]"]
    by (simp_all add: power_boot_facts off_band_in_facts nominal_in_facts cnt)
  have small: "unat (desync_counter ?b) \<le> 2001" by (simp add: b)
  have trip: "desync_trip off_band_in ?b"
    by (simp add: desync_trip_def off_band_in_facts gt200_iff [OF small] b)
  have run: "fst (run_critical (replicate 200 off_band_in @ [nominal_in, off_band_in]) power_boot)
             = fst (loop_critical_task off_band_in ?b)"
    using run_critical_append [of "replicate 200 off_band_in @ [nominal_in]" "[off_band_in]" power_boot]
    by (simp add: split_def Let_def)
  have c: "mode (fst (loop_critical_task off_band_in ?b)) = IDLEMODE"
    "mode_asked (fst (loop_critical_task off_band_in ?b)) = IDLEMODE"
    using tick_power_fields(4,5) [OF b(1-3) off_band_in_facts(1)] trip by simp_all
  show ?thesis
    using a b c by (simp add: run word_unat_eq_iff)
qed

subsection \<open>Overcurrent\<close>

lemma overcurrent_abs:
  "overcurrent s \<longleftrightarrow> \<bar>Ilow1_value s\<bar> > MAX_CURRENT \<or> \<bar>Ilow2_value s\<bar> > MAX_CURRENT"
  by (auto simp add: overcurrent_def MAX_CURRENT_def)

lemma stopped_tick:
  assumes "mode s = IDLEMODE \<or> mode s = ERRORMODE" "\<not> pwm_enable s" "\<not> boost_pwm_enable s"
  shows "mode (fst (loop_critical_task inp s)) = IDLEMODE
           \<or> mode (fst (loop_critical_task inp s)) = ERRORMODE"
    and "\<not> pwm_enable (fst (loop_critical_task inp s))"
    and "\<not> boost_pwm_enable (fst (loop_critical_task inp s))"
    and "snd (loop_critical_task inp s) = [ScopeAcquire]"
proof -
  have "(mode (fst (loop_critical_task inp s)) = IDLEMODE
           \<or> mode (fst (loop_critical_task inp s)) = ERRORMODE)
        \<and> \<not> pwm_enable (fst (loop_critical_task inp s))
        \<and> \<not> boost_pwm_enable (fst (loop_critical_task inp s))
        \<and> snd (loop_critical_task inp s) = [ScopeAcquire]"
  proof (cases "overcurrent (retrieve_measurements inp s)")
    case True
    then show ?thesis
      using assms(2,3) by (simp add: tick_overcurrent)
  next
    case False
    then show ?thesis
      using assms by (simp add: tick_idle_or_error retrieve_measurements_keeps)
  qed
  then show "mode (fst (loop_critical_task inp s)) = IDLEMODE
           \<or> mode (fst (loop_critical_task inp s)) = ERRORMODE"
    and "\<not> pwm_enable (fst (loop_critical_task inp s))"
    and "\<not> boost_pwm_enable (fst (loop_critical_task inp s))"
    and "snd (loop_critical_task inp s) = [ScopeAcquire]"
    by simp_all
qed

lemma stopped_run:
  assumes "mode s = IDLEMODE \<or> mode s = ERRORMODE" "\<not> pwm_enable s" "\<not> boost_pwm_enable s"
  shows "filter is_stop (snd (run_critical inps s)) = []"
  using assms
proof (induction inps arbitrary: s)
  case Nil
  then show ?case by simp
next
  case (Cons inp inps)
  note t = stopped_tick [OF Cons.prems, of inp]
  from Cons.IH [OF t(1-3)] t(4)
  show ?case by (simp add: snd_run_Cons is_stop_def del: run_critical.simps)
qed

text \<open>
  Claim C2, as stated, has the stop calls issued on the tick after the overcurrent.
  With the PWM and the boost legs running in Power and a calibrated current of 9 A,
  the tick of the overcurrent itself sets the mode to Error and issues \<open>stop(ALL)\<close>,
  \<open>stop(LEG1_LOW)\<close> and \<open>stop(LEG2_LOW)\<close>; the following tick issues no stop call.
\<close>

theorem C2_following_tick_counterexample:
  "mode power_running = POWERMODE \<and> pwm_enable power_running \<and> boost_pwm_enable power_running
   \<and> Ilow1_value (retrieve_measurements overcurrent_in power_running) = 9
   \<and> mode (fst (loop_critical_task overcurrent_in power_running)) = ERRORMODE
   \<and> filter is_stop (snd (loop_critical_task overcurrent_in power_running))
        = [PowerStop ALL_LEGS, PowerStop LEG1_LOW, PowerStop LEG2_LOW]
   \<and> filter is_stop
        (snd (loop_critical_task nominal_in (fst (loop_critical_task overcurrent_in power_running))))
        = []"
proof -
  have i: "Ilow1_value (retrieve_measurements overcurrent_in power_running) = 9"
    by (simp add: retrieve_measurements_def overcurrent_in_def nominal_in_def
        I1_current_offset_def Let_def)
  then have oc: "overcurrent (retrieve_measurements overcurrent_in power_running)"
    by (simp add: overcurrent_def MAX_CURRENT_def)
  note t = tick_overcurrent [OF oc]
  have flags: "mode power_running = POWERMODE" "pwm_enable power_running"
    "boost_pwm_enable power_running"
    by (simp_all add: power_running_def power_boot_def boot_globals_def)
  have after: "mode (fst (loop_critical_task overcurrent_in power_running)) = ERRORMODE"
    "\<not> pwm_enable (fst (loop_critical_task overcurrent_in power_running))"
    "\<not> boost_pwm_enable (fst (loop_critical_task overcurrent_in power_running))"
    by (simp_all add: t)
  have next_tick: "snd (loop_critical_task nominal_in
                      (fst (loop_critical_task overcurrent_in power_running))) = [ScopeAcquire]"
    using stopped_tick(4) [OF _ after(2,3)] after(1) by simp
  show ?thesis
    using i flags after(1) by (simp add: next_tick is_stop_def) (simp add: t flags is_stop_def)
qed

text \<open>
  Claim C2 (amended): in a tick in which either calibrated primary current has a
  magnitude above 8.0, the mode is Error at the end of that tick, and that same tick
  issues the stop calls: \<open>stop(ALL)\<close> once if the inverter PWM was active, and
  \<open>stop(LEG1_LOW)\<close> and \<open>stop(LEG2_LOW)\<close> once each if the boost PWM was active; both
  flags are then false, and the following ticks of the critical task issue no stop
  call.
\<close>

theorem C2_overcurrent_stops_same_tick:
  assumes "\<bar>Ilow1_value (retrieve_measurements inp s)\<bar> > MAX_CURRENT
           \<or> \<bar>Ilow2_value (retrieve_measurements inp s)\<bar> > MAX_CURRENT"
  shows "mode (fst (loop_critical_task inp s)) = ERRORMODE
       \<and> filter is_stop (snd (loop_critical_task inp s))
           = (if pwm_enable s then [PowerStop ALL_LEGS] else [])
             @ (if boost_pwm_enable s then [PowerStop LEG1_LOW, PowerStop LEG2_LOW] else [])
       \<and> \<not> pwm_enable (fst (loop_critical_task inp s))
       \<and> \<not> boost_pwm_enable (fst (loop_critical_task inp s))
       \<and> filter is_stop (snd (run_critical inps (fst (loop_critical_task inp s)))) = []"
proof -
  have oc: "overcurrent (retrieve_measurements inp s)"
    using assms by (simp add: overcurrent_abs)
  note t = tick_overcurrent [OF oc]
  have after: "mode (fst (loop_critical_task inp s)) = ERRORMODE"
    "\<not> pwm_enable (fst (loop_critical_task inp s))"
    "\<not> boost_pwm_enable (fst (loop_critical_task inp s))"
    by (simp_all add: t)
  have stops: "filter is_stop (snd (loop_critical_task inp s))
           = (if pwm_enable s then [PowerStop ALL_LEGS] else [])
             @ (if boost_pwm_enable s then [PowerStop LEG1_LOW, PowerStop LEG2_LOW] else [])"
    by (simp add: t is_stop_def)
  have later: "filter is_stop (snd (run_critical inps (fst (loop_critical_task inp s)))) = []"
    using stopped_run [OF _ after(2,3)] after(1) by simp
  from after stops later show ?thesis by simp
qed

text \<open>The witness: the running Power state and a sample of 9.25 A on the first current
  channel (9 A once calibrated).\<close>

theorem C2_overcurrent_stops_same_tick_witness:
  "\<bar>Ilow1_value (retrieve_measurements overcurrent_in power_running)\<bar> > MAX_CURRENT
   \<and> pwm_enable power_running \<and> boost_pwm_enable power_running
   \<and> mode (fst (loop_critical_task overcurrent_in power_running)) = ERRORMODE
   \<and> filter is_stop (snd (loop_critical_task overcurrent_in power_running))
        = [PowerStop ALL_LEGS, PowerStop LEG1_LOW, PowerStop LEG2_LOW]
   \<and> filter is_stop
        (snd (run_critical [nominal_in, nominal_in, overcurrent_in]
                (fst (loop_critical_task overcurrent_in power_running)))) = []"
proof -
  have i: "Ilow1_value (retrieve_measurements overcurrent_in power_running) = 9"
    by (simp add: retrieve_measurements_def overcurrent_in_def nominal_in_def
        I1_current_offset_def Let_def)
  have flags: "pwm_enable power_running" "boost_pwm_enable power_running"
    by (simp_all add: power_running_def power_boot_def boot_globals_def)
  show ?thesis
    using C2_overcurrent_stops_same_tick [of overcurrent_in power_running "[nominal_in, nominal_in, overcurrent_in]"]
    by (simp add: i flags MAX_CURRENT_def)
qed

subsection \<open>Leg duties in Power\<close>




end
